theory Spec2Isabelle
  imports Main
begin

section \<open>Python values and dictionaries\<close>

text \<open>
  The resolver (yt-dlp) hands back JSON-like dictionaries.  A value is \<open>None\<close>, an integer
  or a string; a dictionary is an association list read with \<open>dict.get\<close>.  Truthiness is
  Python's: \<open>None\<close>, \<open>0\<close>, the empty string and the empty dictionary are false.
\<close>

datatype pyval = PNone | PInt int | PStr string

type_synonym pydict = "(string \<times> pyval) list"

definition py_get :: "pydict \<Rightarrow> string \<Rightarrow> pyval" where
  "py_get d k = (case map_of d k of None \<Rightarrow> PNone | Some v \<Rightarrow> v)"

definition py_get_default :: "pydict \<Rightarrow> string \<Rightarrow> pyval \<Rightarrow> pyval" where
  "py_get_default d k dflt = (case map_of d k of None \<Rightarrow> dflt | Some v \<Rightarrow> v)"

fun truthy :: "pyval \<Rightarrow> bool" where
  "truthy PNone = False"
| "truthy (PInt n) = (n \<noteq> 0)"
| "truthy (PStr s) = (s \<noteq> [])"

text \<open>
  Python's slice \<open>xs[:n]\<close>: the first \<open>n\<close> elements, and for a negative \<open>n\<close> all but
  the last \<open>-n\<close>.
\<close>

definition py_slice_to :: "'a list \<Rightarrow> int \<Rightarrow> 'a list" where
  "py_slice_to xs n = (if 0 \<le> n then take (nat n) xs else take (length xs - nat (- n)) xs)"

section \<open>Responses and errors\<close>

text \<open>
  A failing handler answers with an HTTP status and a message.  The spec's error names are
  read off them: 400 is \<open>ValidationError\<close>, 404 \<open>NotFound\<close>, 409 \<open>Conflict\<close>; in
  \<open>extract_video\<close> the 500 with the text \<open>Could not extract video URL\<close> is
  \<open>NoPlayableStream\<close> and the 500 carrying the resolver's exception text is
  \<open>UpstreamError\<close>.
\<close>

datatype error = Err nat string

definition NoPlayableStream :: error where
  "NoPlayableStream = Err 500 ''Could not extract video URL''"

text \<open>Times are microseconds, the resolution of \<open>datetime\<close>.\<close>

record extract_response =
  er_success :: bool
  er_video_id :: string
  er_url :: pyval
  er_title :: pyval
  er_duration :: pyval
  er_thumbnail :: pyval
  er_description :: pyval
  er_uploader :: pyval
  er_view_count :: pyval
  er_extracted_at :: int

record channel_video =
  cv_video_id :: pyval
  cv_title :: pyval
  cv_thumbnail :: pyval
  cv_url :: string
  cv_duration :: pyval
  cv_uploader :: pyval

record channel_response =
  cr_success :: bool
  cr_videos :: "channel_video list"
  cr_count :: nat
  cr_fetched_at :: int

datatype payload = VideoData extract_response | ChannelData channel_response

section \<open>Resolution cache (\<open>video_cache\<close>, \<open>cache_timeout\<close>)\<close>

type_synonym cache = "string \<rightharpoonup> (payload \<times> int)"

definition cache_timeout :: int where
  "cache_timeout = 3600000000"

text \<open>
  The cache check every handler starts with: the key is in the dictionary and
  \<open>datetime.now() - cache_time < cache_timeout\<close>.
\<close>

definition cache_lookup :: "cache \<Rightarrow> string \<Rightarrow> int \<Rightarrow> payload option" where
  "cache_lookup video_cache cache_key now =
     (case video_cache cache_key of
        None \<Rightarrow> None
      | Some (cached_data, cache_time) \<Rightarrow>
          if now - cache_time < cache_timeout then Some cached_data else None)"

text \<open>\<open>video_cache[cache_key] = (response_data, datetime.now())\<close>\<close>

definition cache_store :: "cache \<Rightarrow> string \<Rightarrow> payload \<Rightarrow> int \<Rightarrow> cache" where
  "cache_store video_cache cache_key response_data now =
     video_cache(cache_key \<mapsto> (response_data, now))"

section \<open>Format selection and \<open>extract_video\<close>\<close>

text \<open>
  The resolver's answer for one video: its scalar fields, and the value of the key
  \<open>formats\<close> when the key is there, a list of format dictionaries.
\<close>

record info =
  info_fields :: pydict
  info_formats :: "pydict list option"

definition has_audio_and_video :: "pydict \<Rightarrow> bool" where
  "has_audio_and_video f \<longleftrightarrow>
     py_get f ''acodec'' \<noteq> PStr ''none'' \<and> py_get f ''vcodec'' \<noteq> PStr ''none''"

text \<open>\<open>next((f for f in formats if ...), None)\<close>\<close>

definition format_with_audio :: "pydict list \<Rightarrow> pydict option" where
  "format_with_audio formats = find has_audio_and_video formats"

text \<open>
  Lines 177 to 190 of \<open>extract_video\<close>.  \<open>if format_with_audio:\<close> tests the
  dictionary's truthiness, so an empty dictionary falls through to the \<open>elif\<close>.
\<close>

definition select_video_url :: "info \<Rightarrow> pyval" where
  "select_video_url vinfo =
     (let video_url = py_get (info_fields vinfo) ''url'' in
      case info_formats vinfo of
        None \<Rightarrow> video_url
      | Some formats \<Rightarrow>
          if truthy video_url then video_url
          else (case format_with_audio formats of
                  Some f \<Rightarrow>
                    if f \<noteq> [] then py_get f ''url''
                    else if formats \<noteq> [] then py_get (last formats) ''url''
                    else video_url
                | None \<Rightarrow>
                    if formats \<noteq> [] then py_get (last formats) ''url''
                    else video_url))"

text \<open>
  The resolver: from the page address to the exception text it raised, or to the info.
\<close>

type_synonym resolver = "string \<Rightarrow> string + info"

text \<open>
  The readings of \<open>datetime.now()\<close> one call of a handler makes: at the cache check, in
  the response, and at the cache write.
\<close>

record clock_reads =
  now_check :: int
  now_response :: int
  now_store :: int

definition video_cache_key :: "string \<Rightarrow> string" where
  "video_cache_key video_id = ''video_'' @ video_id"

definition extract_response_data :: "string \<Rightarrow> pyval \<Rightarrow> info \<Rightarrow> int \<Rightarrow> extract_response" where
  "extract_response_data video_id video_url vinfo now =
     \<lparr> er_success = True,
       er_video_id = video_id,
       er_url = video_url,
       er_title = py_get_default (info_fields vinfo) ''title'' (PStr ''Unknown''),
       er_duration = py_get_default (info_fields vinfo) ''duration'' (PInt 0),
       er_thumbnail = py_get_default (info_fields vinfo) ''thumbnail'' (PStr ''''),
       er_description = py_get_default (info_fields vinfo) ''description'' (PStr ''''),
       er_uploader = py_get_default (info_fields vinfo) ''uploader'' (PStr ''''),
       er_view_count = py_get_default (info_fields vinfo) ''view_count'' (PInt 0),
       er_extracted_at = now \<rparr>"

text \<open>
  \<open>extract_video\<close>: the argument is the value of
  \<open>request.args.get('video_id') or request.json.get('video_id')\<close>.
\<close>

definition extract_video ::
  "resolver \<Rightarrow> clock_reads \<Rightarrow> cache \<Rightarrow> string option \<Rightarrow> (error + payload) \<times> cache" where
  "extract_video ydl clk video_cache video_id_arg =
     (case video_id_arg of
        None \<Rightarrow> (Inl (Err 400 ''video_id is required''), video_cache)
      | Some video_id \<Rightarrow>
          if video_id = [] then (Inl (Err 400 ''video_id is required''), video_cache)
          else
            (case cache_lookup video_cache (video_cache_key video_id) (now_check clk) of
               Some cached_data \<Rightarrow> (Inr cached_data, video_cache)
             | None \<Rightarrow>
                 (case ydl (''https://www.youtube.com/watch?v='' @ video_id) of
                    Inl e \<Rightarrow> (Inl (Err 500 e), video_cache)
                  | Inr vinfo \<Rightarrow>
                      (let video_url = select_video_url vinfo in
                       if \<not> truthy video_url then (Inl NoPlayableStream, video_cache)
                       else
                         (let response_data =
                                VideoData (extract_response_data video_id video_url vinfo
                                             (now_response clk))
                          in (Inr response_data,
                              cache_store video_cache (video_cache_key video_id)
                                response_data (now_store clk)))))))"


section \<open>Text of values\<close>

text \<open>\<open>str(n)\<close> for an integer, as an f-string renders it.\<close>

fun py_str_nat :: "nat \<Rightarrow> string" where
  "py_str_nat n =
     (if n < 10 then [char_of (48 + n)]
      else py_str_nat (n div 10) @ [char_of (48 + n mod 10)])"

definition py_str :: "int \<Rightarrow> string" where
  "py_str n = (if n < 0 then CHR ''-'' # py_str_nat (nat (- n)) else py_str_nat (nat n))"

fun py_format :: "pyval \<Rightarrow> string" where
  "py_format PNone = ''None''"
| "py_format (PInt n) = py_str n"
| "py_format (PStr s) = s"

text \<open>
  What a column of type TEXT keeps of a bound value: \<open>NULL\<close> for \<open>None\<close>, the text itself,
  and for an integer its decimal text.
\<close>

fun sql_text :: "pyval \<Rightarrow> string option" where
  "sql_text PNone = None"
| "sql_text (PInt n) = Some (py_str n)"
| "sql_text (PStr s) = Some s"

text \<open>
  \<open>str.strip()\<close>.  Strings are byte lists here, so only the ASCII white space of Python
  is removed (tab to carriage return, the four separators 28 to 31, and the blank).
\<close>

definition is_space :: "char \<Rightarrow> bool" where
  "is_space c \<longleftrightarrow> (9 \<le> (of_char c :: nat) \<and> (of_char c :: nat) \<le> 13)
                   \<or> (28 \<le> (of_char c :: nat) \<and> (of_char c :: nat) \<le> 32)"

definition py_strip :: "string \<Rightarrow> string" where
  "py_strip s = rev (dropWhile is_space (rev (dropWhile is_space s)))"


definition thumbnail_template :: "string \<Rightarrow> string" where
  "thumbnail_template video_id = ''https://i.ytimg.com/vi/'' @ video_id @ ''/hqdefault.jpg''"

section \<open>Flattened listings and \<open>get_blippi_videos\<close>\<close>

text \<open>
  An entry of a flattened channel or playlist listing: its \<open>id\<close> (a string when present)
  and its other fields.  A listing has the key \<open>entries\<close> or not.
\<close>

record entry =
  e_id :: "string option"
  e_fields :: pydict

record listing =
  l_fields :: pydict
  l_entries :: "entry list option"

text \<open>
  The listing resolver is called with the address and the option \<open>playlistend\<close>.
\<close>

type_synonym list_resolver = "string \<Rightarrow> int \<Rightarrow> string + listing"








section \<open>The catalog of \<open>backend/server.py\<close>: manual enrichment and \<open>add_videos_to_group\<close>\<close>

text \<open>The dictionary a video is held in between lookup and insertion.\<close>

record video =
  v_video_id :: string
  v_title :: pyval
  v_thumbnail :: pyval
  v_duration :: pyval
  v_uploader :: pyval

definition watch_url :: "string \<Rightarrow> string" where
  "watch_url video_id = ''https://www.youtube.com/watch?v='' @ video_id"

text \<open>\<open>fetch_video_info\<close>: the \<open>except\<close> branch is the \<open>Inl\<close> case.\<close>

definition fetch_video_info :: "resolver \<Rightarrow> string \<Rightarrow> video" where
  "fetch_video_info ydl video_id =
     (case ydl (watch_url video_id) of
        Inr vinfo \<Rightarrow>
          \<lparr> v_video_id = video_id,
            v_title = py_get_default (info_fields vinfo) ''title'' (PStr ''Unknown Title''),
            v_thumbnail = py_get_default (info_fields vinfo) ''thumbnail''
                            (PStr (thumbnail_template video_id)),
            v_duration = py_get_default (info_fields vinfo) ''duration'' (PInt 0),
            v_uploader = py_get_default (info_fields vinfo) ''uploader'' (PStr ''Unknown'') \<rparr>
      | Inl e \<Rightarrow>
          \<lparr> v_video_id = video_id,
            v_title = PStr ''Unknown Title'',
            v_thumbnail = PStr (thumbnail_template video_id),
            v_duration = PInt 0,
            v_uploader = PStr ''Unknown'' \<rparr>)"

text \<open>
  The loop of \<open>create_group\<close> over manually given ids (its last \<open>else\<close> branch).
\<close>

fun create_group_manual_videos :: "resolver \<Rightarrow> string list \<Rightarrow> video list" where
  "create_group_manual_videos ydl [] = []"
| "create_group_manual_videos ydl (raw_id # rest) =
     (let video_id = py_strip raw_id in
      if video_id \<noteq> [] then fetch_video_info ydl video_id # create_group_manual_videos ydl rest
      else create_group_manual_videos ydl rest)"

text \<open>
  The tables \<open>groups\<close> and \<open>videos\<close>.  The key of \<open>videos\<close> is AUTOINCREMENT, so the
  largest key ever given is kept beside the rows.  Text columns hold \<open>sql_text\<close> of the
  bound value; \<open>duration\<close> holds the bound value as it is.
\<close>

record group_row =
  gr_id :: string
  gr_name :: string
  gr_description :: "string option"
  gr_created_at :: string

record video_row =
  vr_id :: int
  vr_group_id :: string
  vr_video_id :: string
  vr_title :: string
  vr_thumbnail :: "string option"
  vr_duration :: pyval
  vr_uploader :: "string option"

record backend_db =
  db_groups :: "group_row list"
  db_videos :: "video_row list"
  db_videos_seq :: int

definition group_exists :: "backend_db \<Rightarrow> string \<Rightarrow> bool" where
  "group_exists db group_id \<longleftrightarrow> (\<exists>g \<in> set (db_groups db). gr_id g = group_id)"

text \<open>\<open>SELECT video_id FROM videos WHERE group_id = ?\<close> as a set.\<close>

definition group_video_ids :: "backend_db \<Rightarrow> string \<Rightarrow> string set" where
  "group_video_ids db group_id =
     vr_video_id ` set (filter (\<lambda>r. vr_group_id r = group_id) (db_videos db))"

text \<open>
  One \<open>INSERT INTO videos\<close>: it raises IntegrityError on a \<open>NULL\<close> title and on a
  \<open>(group_id, video_id)\<close> already there, and OperationalError when the keys are used up.
\<close>

definition insert_video :: "backend_db \<Rightarrow> string \<Rightarrow> video \<Rightarrow> string + backend_db" where
  "insert_video db group_id v =
     (case sql_text (v_title v) of
        None \<Rightarrow> Inl ''NOT NULL constraint failed: videos.title''
      | Some title \<Rightarrow>
          if 9223372036854775807 \<le> db_videos_seq db
          then Inl ''database or disk is full''
          else if v_video_id v \<in> group_video_ids db group_id
          then Inl ''UNIQUE constraint failed: videos.group_id, videos.video_id''
          else Inr (db \<lparr> db_videos := db_videos db @
                            [\<lparr> vr_id = db_videos_seq db + 1,
                               vr_group_id = group_id,
                               vr_video_id = v_video_id v,
                               vr_title = title,
                               vr_thumbnail = sql_text (v_thumbnail v),
                               vr_duration = v_duration v,
                               vr_uploader = sql_text (v_uploader v) \<rparr>],
                          db_videos_seq := db_videos_seq db + 1 \<rparr>))"

text \<open>
  The loop of inserts inside one transaction: the first exception leaves the loop, and the
  connection is closed without a commit.
\<close>

fun insert_videos :: "backend_db \<Rightarrow> string \<Rightarrow> video list \<Rightarrow> string + backend_db" where
  "insert_videos db group_id [] = Inr db"
| "insert_videos db group_id (v # vs) =
     (case insert_video db group_id v of
        Inl e \<Rightarrow> Inl e
      | Inr db' \<Rightarrow> insert_videos db' group_id vs)"

text \<open>The three running variables of \<open>add_videos_to_group\<close>.\<close>

record batch =
  existing_ids :: "string set"
  new_videos :: "video list"
  added_count :: nat

definition entry_video :: "string \<Rightarrow> entry \<Rightarrow> video" where
  "entry_video vid_id ent =
     \<lparr> v_video_id = vid_id,
       v_title = py_get_default (e_fields ent) ''title'' (PStr ''Unknown Title''),
       v_thumbnail = py_get_default (e_fields ent) ''thumbnail''
                       (PStr (thumbnail_template vid_id)),
       v_duration = py_get_default (e_fields ent) ''duration'' (PInt 0),
       v_uploader = py_get_default (e_fields ent) ''uploader'' (PStr ''Unknown'') \<rparr>"

text \<open>The loop over the entries of a playlist or channel listing.\<close>

fun add_entries :: "entry list \<Rightarrow> batch \<Rightarrow> batch" where
  "add_entries [] b = b"
| "add_entries (ent # rest) b =
     (case e_id ent of
        None \<Rightarrow> add_entries rest b
      | Some vid_id \<Rightarrow>
          if vid_id \<noteq> [] \<and> vid_id \<notin> existing_ids b
          then add_entries rest
                 \<lparr> existing_ids = insert vid_id (existing_ids b),
                   new_videos = new_videos b @ [entry_video vid_id ent],
                   added_count = added_count b + 1 \<rparr>
          else add_entries rest b)"

text \<open>The loop over manually given ids.\<close>

fun add_manual :: "resolver \<Rightarrow> string list \<Rightarrow> batch \<Rightarrow> batch" where
  "add_manual ydl [] b = b"
| "add_manual ydl (raw_id # rest) b =
     (let video_id = py_strip raw_id in
      if video_id \<noteq> [] \<and> video_id \<notin> existing_ids b
      then add_manual ydl rest
             \<lparr> existing_ids = insert video_id (existing_ids b),
               new_videos = new_videos b @ [fetch_video_info ydl video_id],
               added_count = added_count b + 1 \<rparr>
      else add_manual ydl rest b)"

text \<open>
  The JSON body of \<open>add_videos_to_group\<close>: \<open>video_ids\<close> (default the empty list),
  \<open>playlist_id\<close>, \<open>channel_id\<close> and \<open>max_results\<close> (default 50).
\<close>

record add_request =
  rq_video_ids :: "string list"
  rq_playlist_id :: "string option"
  rq_channel_id :: "string option"
  rq_max_results :: "int option"

text \<open>An optional text that is there and not empty (Python's truthiness).\<close>

definition given :: "string option \<Rightarrow> string option" where
  "given x = (case x of None \<Rightarrow> None | Some s \<Rightarrow> if s = [] then None else Some s)"

definition group_channel_url :: "string \<Rightarrow> string" where
  "group_channel_url channel_id =
     (if take 2 channel_id = ''UC'' then ''https://www.youtube.com/channel/'' @ channel_id @ ''/videos''
      else ''https://www.youtube.com/@'' @ channel_id @ ''/videos'')"

text \<open>\<open>load_groups\<close> followed by the search for the group: its row and its videos.\<close>

definition load_group :: "backend_db \<Rightarrow> string \<Rightarrow> (group_row \<times> video_row list) option" where
  "load_group db group_id =
     (case find (\<lambda>g. gr_id g = group_id) (db_groups db) of
        None \<Rightarrow> None
      | Some g \<Rightarrow> Some (g, filter (\<lambda>r. vr_group_id r = gr_id g) (db_videos db)))"

record add_response =
  ar_added_count :: nat
  ar_group :: "(group_row \<times> video_row list) option"

text \<open>The collection phase: which videos are new, or the error answered.\<close>

definition collect_new_videos ::
  "resolver \<Rightarrow> list_resolver \<Rightarrow> backend_db \<Rightarrow> string \<Rightarrow> add_request \<Rightarrow> error + batch" where
  "collect_new_videos ydl ydl_flat db group_id req =
     (let max_results = (case rq_max_results req of None \<Rightarrow> 50 | Some n \<Rightarrow> n);
          start = \<lparr> existing_ids = group_video_ids db group_id, new_videos = [], added_count = 0 \<rparr>
      in
      case given (rq_playlist_id req) of
        Some playlist_id \<Rightarrow>
          (case ydl_flat (''https://www.youtube.com/playlist?list='' @ playlist_id) max_results of
             Inl e \<Rightarrow> Inl (Err 500 (''Failed to fetch playlist: '' @ e))
           | Inr linfo \<Rightarrow>
               (case l_entries linfo of
                  None \<Rightarrow> Inr start
                | Some entries \<Rightarrow> Inr (add_entries (py_slice_to entries max_results) start)))
      | None \<Rightarrow>
          (case given (rq_channel_id req) of
             Some channel_id \<Rightarrow>
               (case ydl_flat (group_channel_url channel_id) max_results of
                  Inl e \<Rightarrow> Inl (Err 500 (''Failed to fetch channel: '' @ e))
                | Inr linfo \<Rightarrow>
                    (case l_entries linfo of
                       None \<Rightarrow> Inr start
                     | Some entries \<Rightarrow>
                         Inr (add_entries (py_slice_to entries max_results) start)))
           | None \<Rightarrow>
               if rq_video_ids req = [] then
                 Inl (Err 400 ''video_ids, playlist_id, or channel_id is required'')
               else Inr (add_manual ydl (rq_video_ids req) start)))"

text \<open>\<open>add_videos_to_group\<close>\<close>

definition add_videos_to_group ::
  "resolver \<Rightarrow> list_resolver \<Rightarrow> backend_db \<Rightarrow> string \<Rightarrow> add_request
     \<Rightarrow> (error + add_response) \<times> backend_db" where
  "add_videos_to_group ydl ydl_flat db group_id req =
     (if \<not> group_exists db group_id then (Inl (Err 404 ''Group not found''), db)
      else
        (case collect_new_videos ydl ydl_flat db group_id req of
           Inl err \<Rightarrow> (Inl err, db)
         | Inr b \<Rightarrow>
             (case insert_videos db group_id (new_videos b) of
                Inl e \<Rightarrow> (Inl (Err 500 (''Failed to save changes: '' @ e)), db)
              | Inr db' \<Rightarrow>
                  (Inr \<lparr> ar_added_count = added_count b, ar_group = load_group db' group_id \<rparr>,
                   db'))))"

text \<open>
  \<open>delete_video_from_group\<close> of \<open>backend/server.py\<close>: the row is looked for before
  anything is deleted.
\<close>

definition backend_delete_video_from_group ::
  "backend_db \<Rightarrow> string \<Rightarrow> string \<Rightarrow> (error + unit) \<times> backend_db" where
  "backend_delete_video_from_group db group_id video_id =
     (if video_id \<notin> group_video_ids db group_id
      then (Inl (Err 404 ''Video not found in group''), db)
      else (Inr (),
            db \<lparr> db_videos :=
                   filter (\<lambda>r. \<not> (vr_group_id r = group_id \<and> vr_video_id r = video_id))
                     (db_videos db) \<rparr>))"

section \<open>The catalog of \<open>server.py\<close>: groups with ordered member videos\<close>

text \<open>
  The tables \<open>video_groups\<close> and \<open>group_videos\<close> of \<open>init_db\<close>, without the time
  stamps the store writes itself (no handler modelled here reads them).  Both keys are
  AUTOINCREMENT, so the largest key ever given is kept beside the rows.
\<close>

record video_group =
  vg_id :: int
  vg_group_name :: string
  vg_description :: "string option"
  vg_thumbnail :: "string option"

record group_video =
  gv_id :: int
  gv_group_id :: int
  gv_video_id :: string
  gv_video_title :: string
  gv_video_thumbnail :: "string option"
  gv_position :: int

record catalog =
  video_groups :: "video_group list"
  group_videos :: "group_video list"
  video_groups_seq :: int
  group_videos_seq :: int

text \<open>The two tables as \<open>init_db\<close> creates them.\<close>

definition init_db :: catalog where
  "init_db = \<lparr> video_groups = [], group_videos = [], video_groups_seq = 0, group_videos_seq = 0 \<rparr>"

text \<open>
  Every handler opens its own connection with \<open>sqlite3.connect(DB_PATH)\<close> and none runs
  \<open>PRAGMA foreign_keys = ON\<close>.  SQLite then keeps foreign key enforcement switched off:
  the clause \<open>ON DELETE CASCADE\<close> of the schema is stored and not acted on.
\<close>

definition foreign_keys :: bool where
  "foreign_keys = False"

definition sqlite_max_int :: int where
  "sqlite_max_int = 9223372036854775807"

text \<open>The rows of one group, in table order.\<close>

definition members :: "catalog \<Rightarrow> int \<Rightarrow> group_video list" where
  "members db group_id = filter (\<lambda>r. gv_group_id r = group_id) (group_videos db)"

text \<open>\<open>SELECT MAX(position) FROM group_videos WHERE group_id = ?\<close>\<close>

definition max_position :: "catalog \<Rightarrow> int \<Rightarrow> int option" where
  "max_position db group_id =
     (case members db group_id of
        [] \<Rightarrow> None
      | r # rs \<Rightarrow> Some (fold (\<lambda>x m. max (gv_position x) m) rs (gv_position r)))"

text \<open>
  \<open>ORDER BY position ASC LIMIT 1\<close>.  SQL does not say which of two rows with the same
  position comes first; here it is the earlier row of the table.
\<close>

fun first_by_position :: "group_video list \<Rightarrow> group_video option" where
  "first_by_position [] = None"
| "first_by_position (r # rs) =
     (case first_by_position rs of
        None \<Rightarrow> Some r
      | Some m \<Rightarrow> if gv_position r \<le> gv_position m then Some r else Some m)"

text \<open>\<open>UPDATE video_groups SET thumbnail = ? WHERE id = ?\<close>\<close>

definition set_thumbnail :: "catalog \<Rightarrow> int \<Rightarrow> string option \<Rightarrow> catalog" where
  "set_thumbnail db group_id thumbnail =
     db \<lparr> video_groups :=
            map (\<lambda>g. if vg_id g = group_id then g \<lparr> vg_thumbnail := thumbnail \<rparr> else g)
              (video_groups db) \<rparr>"

text \<open>\<open>create_group\<close>: the argument is the JSON body, if any.\<close>

definition create_group :: "catalog \<Rightarrow> pydict option \<Rightarrow> (error + video_group) \<times> catalog" where
  "create_group db body =
     (case body of
        None \<Rightarrow> (Inl (Err 400 ''No data provided''), db)
      | Some data \<Rightarrow>
          if data = [] then (Inl (Err 400 ''No data provided''), db)
          else
            (case (if truthy (py_get data ''group_name'') then sql_text (py_get data ''group_name'')
                   else None) of
               None \<Rightarrow> (Inl (Err 400 ''group_name is required''), db)
             | Some group_name \<Rightarrow>
                 if sqlite_max_int \<le> video_groups_seq db
                 then (Inl (Err 500 ''database or disk is full''), db)
                 else
                   (let g = \<lparr> vg_id = video_groups_seq db + 1,
                              vg_group_name = group_name,
                              vg_description =
                                sql_text (py_get_default data ''description'' (PStr '''')),
                              vg_thumbnail = Some '''' \<rparr>
                    in (Inr g,
                        db \<lparr> video_groups := video_groups db @ [g],
                             video_groups_seq := video_groups_seq db + 1 \<rparr>))))"

record added_video =
  av_id :: int
  av_video_id :: pyval
  av_video_title :: pyval
  av_video_thumbnail :: pyval
  av_position :: int

text \<open>
  \<open>add_video_to_group\<close>.  The insert raises IntegrityError (answered 409) when the pair
  \<open>(group_id, video_id)\<close> is already there; a position beyond 64 bits and used-up keys
  raise other exceptions (answered 500).  In each case nothing was committed.
\<close>

definition add_video_to_group ::
  "catalog \<Rightarrow> int \<Rightarrow> pydict option \<Rightarrow> (error + added_video) \<times> catalog" where
  "add_video_to_group db group_id body =
     (case body of
        None \<Rightarrow> (Inl (Err 400 ''No data provided''), db)
      | Some data \<Rightarrow>
          if data = [] then (Inl (Err 400 ''No data provided''), db)
          else
            (case (if truthy (py_get data ''video_id'') \<and> truthy (py_get data ''video_title'')
                   then (case (sql_text (py_get data ''video_id''),
                               sql_text (py_get data ''video_title'')) of
                           (Some i, Some t) \<Rightarrow> Some (i, t)
                         | _ \<Rightarrow> None)
                   else None) of
               None \<Rightarrow> (Inl (Err 400 ''video_id and video_title are required''), db)
             | Some (video_id, video_title) \<Rightarrow>
                 (let video_thumbnail =
                        py_get_default data ''video_thumbnail''
                          (PStr (thumbnail_template (py_format (py_get data ''video_id''))))
                  in
                  if \<not> (\<exists>g \<in> set (video_groups db). vg_id g = group_id)
                  then (Inl (Err 404 ''Group not found''), db)
                  else
                    (let next_position =
                           (case max_position db group_id of None \<Rightarrow> 1 | Some max_pos \<Rightarrow> max_pos + 1)
                     in
                     if sqlite_max_int < next_position
                     then (Inl (Err 500 ''Python int too large to convert to SQLite INTEGER''), db)
                     else if sqlite_max_int \<le> group_videos_seq db
                     then (Inl (Err 500 ''database or disk is full''), db)
                     else if video_id \<in> gv_video_id ` set (members db group_id)
                     then (Inl (Err 409 ''Video already exists in this group''), db)
                     else
                       (let new_id = group_videos_seq db + 1;
                            db1 = db \<lparr> group_videos := group_videos db @
                                         [\<lparr> gv_id = new_id,
                                            gv_group_id = group_id,
                                            gv_video_id = video_id,
                                            gv_video_title = video_title,
                                            gv_video_thumbnail = sql_text video_thumbnail,
                                            gv_position = next_position \<rparr>],
                                       group_videos_seq := new_id \<rparr>;
                            db2 = (if next_position = 1
                                   then set_thumbnail db1 group_id (sql_text video_thumbnail)
                                   else db1)
                        in (Inr \<lparr> av_id = new_id,
                                  av_video_id = py_get data ''video_id'',
                                  av_video_title = py_get data ''video_title'',
                                  av_video_thumbnail = video_thumbnail,
                                  av_position = next_position \<rparr>,
                            db2))))))"

text \<open>
  \<open>DELETE FROM video_groups WHERE id = ?\<close> on a connection with foreign keys on or off:
  the number of rows deleted and the store after it.  With foreign keys on, the rows of
  \<open>group_videos\<close> that refer to a deleted group go with it.
\<close>

definition sql_delete_group :: "bool \<Rightarrow> catalog \<Rightarrow> int \<Rightarrow> nat \<times> catalog" where
  "sql_delete_group fk db group_id =
     (let rows_affected = length (filter (\<lambda>g. vg_id g = group_id) (video_groups db)) in
      (rows_affected,
       db \<lparr> video_groups := filter (\<lambda>g. vg_id g \<noteq> group_id) (video_groups db),
            group_videos :=
              (if fk \<and> 0 < rows_affected
               then filter (\<lambda>r. gv_group_id r \<noteq> group_id) (group_videos db)
               else group_videos db) \<rparr>))"

text \<open>\<open>delete_group\<close>\<close>

definition delete_group :: "catalog \<Rightarrow> int \<Rightarrow> (error + unit) \<times> catalog" where
  "delete_group db group_id =
     (case sql_delete_group foreign_keys db group_id of
        (rows_affected, db') \<Rightarrow>
          if 0 < rows_affected then (Inr (), db')
          else (Inl (Err 404 ''Group not found''), db'))"

text \<open>
  \<open>delete_video_from_group\<close>: the second argument of the route is the key of the row.
  The delete, the recomputation of the thumbnail and the commit all come before
  \<open>rows_affected\<close> is looked at.
\<close>

definition delete_video_from_group :: "catalog \<Rightarrow> int \<Rightarrow> int \<Rightarrow> (error + unit) \<times> catalog" where
  "delete_video_from_group db group_id video_id =
     (let rows_affected =
            length (filter (\<lambda>r. gv_group_id r = group_id \<and> gv_id r = video_id) (group_videos db));
          db1 = db \<lparr> group_videos :=
                       filter (\<lambda>r. \<not> (gv_group_id r = group_id \<and> gv_id r = video_id))
                         (group_videos db) \<rparr>;
          new_thumbnail = (case first_by_position (members db1 group_id) of
                             None \<Rightarrow> Some ''''
                           | Some r \<Rightarrow> gv_video_thumbnail r);
          db2 = set_thumbnail db1 group_id new_thumbnail
      in if 0 < rows_affected then (Inr (), db2)
         else (Inl (Err 404 ''Video not found''), db2))"

text \<open>The requests that change the two tables, and the stores they lead to from a new one.\<close>

datatype request =
    CreateGroup "pydict option"
  | AddVideoToGroup int "pydict option"
  | DeleteGroup int
  | DeleteVideoFromGroup int int

fun handle :: "catalog \<Rightarrow> request \<Rightarrow> catalog" where
  "handle db (CreateGroup body) = snd (create_group db body)"
| "handle db (AddVideoToGroup group_id body) = snd (add_video_to_group db group_id body)"
| "handle db (DeleteGroup group_id) = snd (delete_group db group_id)"
| "handle db (DeleteVideoFromGroup group_id video_id) =
     snd (delete_video_from_group db group_id video_id)"

definition run :: "request list \<Rightarrow> catalog" where
  "run reqs = foldl handle init_db reqs"

text \<open>
  The invariants of the membership table in the data model: every position is at least 1,
  a pair \<open>(group_id, video_id)\<close> occurs once, and within one group no position occurs
  twice.
\<close>

definition catalog_ok :: "catalog \<Rightarrow> bool" where
  "catalog_ok db \<longleftrightarrow>
     (\<forall>r\<in>set (group_videos db). 1 \<le> gv_position r)
     \<and> distinct (map (\<lambda>r. (gv_group_id r, gv_video_id r)) (group_videos db))
     \<and> (\<forall>r\<in>set (group_videos db). distinct (map gv_position (members db (gv_group_id r))))"

section \<open>Resolvers and clocks for the worked examples\<close>

text \<open>A resolver that answers every address with the same info, and one that always raises.\<close>

definition answering :: "info \<Rightarrow> resolver" where
  "answering vinfo url = Inr vinfo"

definition raising :: "string \<Rightarrow> resolver" where
  "raising e url = Inl e"

definition at_time :: "int \<Rightarrow> clock_reads" where
  "at_time t = \<lparr> now_check = t, now_response = t, now_store = t \<rparr>"





definition sample_payload :: payload where
  "sample_payload =
     VideoData (extract_response_data ''abc'' (PStr ''https://cdn/best'')
                  \<lparr>info_fields = [(''url'', PStr ''https://cdn/best'')], info_formats = None\<rparr> 0)"




text \<open>
  A store of \<open>backend/server.py\<close> with one empty group, a resolver that fails for one
  video, a listing resolver that always raises, and a request with manual ids only.
\<close>

definition kids_db :: backend_db where
  "kids_db =
     \<lparr> db_groups = [\<lparr> gr_id = ''g1'', gr_name = ''Kids'', gr_description = Some '''',
                      gr_created_at = ''2024-01-01T00:00:00'' \<rparr>],
       db_videos = [],
       db_videos_seq = 0 \<rparr>"

definition one_down :: resolver where
  "one_down url =
     (if url = watch_url ''bad1'' then Inl ''Video unavailable''
      else Inr \<lparr> info_fields = [(''title'', PStr ''Song'')], info_formats = None \<rparr>)"

definition no_listing :: list_resolver where
  "no_listing url playlistend = Inl ''no listing''"

definition manual_request :: "string list \<Rightarrow> add_request" where
  "manual_request ids =
     \<lparr> rq_video_ids = ids, rq_playlist_id = None, rq_channel_id = None, rq_max_results = None \<rparr>"

definition kids_db1 :: backend_db where
  "kids_db1 =
     kids_db \<lparr> db_videos :=
                 [\<lparr> vr_id = 1, vr_group_id = ''g1'', vr_video_id = ''abc123'', vr_title = ''Song'',
                    vr_thumbnail = Some ''https://i.ytimg.com/vi/abc123/hqdefault.jpg'',
                    vr_duration = PInt 0, vr_uploader = Some ''Unknown'' \<rparr>],
               db_videos_seq := 1 \<rparr>"

text \<open>
  Stores of \<open>server.py\<close>: the group \<open>Kids\<close> after two adds, and a store whose group
  thumbnail differs from the thumbnail of its first member.
\<close>

definition kids_requests :: "request list" where
  "kids_requests =
     [CreateGroup (Some [(''group_name'', PStr ''Kids'')]),
      AddVideoToGroup 1 (Some [(''video_id'', PStr ''abc123''), (''video_title'', PStr ''A'')]),
      AddVideoToGroup 1 (Some [(''video_id'', PStr ''def456''), (''video_title'', PStr ''B'')])]"

definition abc_row :: group_video where
  "abc_row = \<lparr> gv_id = 1, gv_group_id = 1, gv_video_id = ''abc123'', gv_video_title = ''A'',
               gv_video_thumbnail = Some ''https://i.ytimg.com/vi/abc123/hqdefault.jpg'',
               gv_position = 1 \<rparr>"

definition def_row :: group_video where
  "def_row = \<lparr> gv_id = 2, gv_group_id = 1, gv_video_id = ''def456'', gv_video_title = ''B'',
               gv_video_thumbnail = Some ''https://i.ytimg.com/vi/def456/hqdefault.jpg'',
               gv_position = 2 \<rparr>"

definition kids_group :: "string option \<Rightarrow> video_group" where
  "kids_group thumbnail =
     \<lparr> vg_id = 1, vg_group_name = ''Kids'', vg_description = Some '''', vg_thumbnail = thumbnail \<rparr>"

definition kids_catalog :: catalog where
  "kids_catalog =
     \<lparr> video_groups = [kids_group (Some ''https://i.ytimg.com/vi/abc123/hqdefault.jpg'')],
       group_videos = [abc_row, def_row],
       video_groups_seq = 1,
       group_videos_seq = 2 \<rparr>"

definition stale_catalog :: catalog where
  "stale_catalog =
     \<lparr> video_groups = [kids_group (Some ''old.jpg'')],
       group_videos = [def_row],
       video_groups_seq = 1,
       group_videos_seq = 2 \<rparr>"

section \<open>Properties\<close>

subsection \<open>Format selection\<close>









subsection \<open>Resolution cache\<close>

lemma cache_lookup_store_fresh:
  "now - t < cache_timeout \<Longrightarrow> cache_lookup (cache_store c k p t) k now = Some p"
  by (simp add: cache_lookup_def cache_store_def)

lemma cache_lookup_store_stale:
  "cache_timeout \<le> now - t \<Longrightarrow> cache_lookup (cache_store c k p t) k now = None"
  by (simp add: cache_lookup_def cache_store_def)

lemma cache_lookup_removed: "cache_lookup (c(k := None)) k now = None"
  by (simp add: cache_lookup_def)

lemma cache_store_twice: "cache_store (cache_store c k p t) k p' t' = cache_store c k p' t'"
  by (simp add: cache_store_def)

lemma extract_video_miss:
  "video_id \<noteq> [] \<Longrightarrow> cache_lookup c (video_cache_key video_id) (now_check clk) = None \<Longrightarrow>
   extract_video ydl clk c (Some video_id) =
     (case ydl (''https://www.youtube.com/watch?v='' @ video_id) of
        Inl e \<Rightarrow> (Inl (Err 500 e), c)
      | Inr vinfo \<Rightarrow>
          if truthy (select_video_url vinfo)
          then (Inr (VideoData (extract_response_data video_id (select_video_url vinfo) vinfo
                                  (now_response clk))),
                cache_store c (video_cache_key video_id)
                  (VideoData (extract_response_data video_id (select_video_url vinfo) vinfo
                                (now_response clk))) (now_store clk))
          else (Inl NoPlayableStream, c))"
  by (simp add: extract_video_def Let_def split: sum.splits)

lemma extract_video_hit:
  "video_id \<noteq> [] \<Longrightarrow> cache_lookup c (video_cache_key video_id) (now_check clk) = Some p \<Longrightarrow>
   extract_video ydl clk c (Some video_id) = (Inr p, c)"
  by (simp add: extract_video_def)

text \<open>
  C2.  A lookup less than \<open>cache_timeout\<close> (one hour) after the store of a key returns the
  payload stored, and a lookup one hour or more after it finds nothing.  In
  \<open>extract_video\<close>: a successful resolution stores its response under the video's key at
  the time of the write; a later request for the same video within the hour is answered
  with exactly that payload, whatever the resolver would say, and leaves the cache as it
  is; a request at or after the hour is answered as if the key were absent (the resolver
  is asked again), the stale entry stays when this resolution fails and is overwritten by
  the new response when it succeeds.
\<close>

theorem cache_ttl:
  "(now - t < cache_timeout \<longrightarrow> cache_lookup (cache_store c k p t) k now = Some p)
   \<and> (cache_timeout \<le> now - t \<longrightarrow> cache_lookup (cache_store c k p t) k now = None)
   \<and> (video_id \<noteq> [] \<and> cache_lookup c (video_cache_key video_id) (now_check clk) = None
        \<and> fst (extract_video ydl clk c (Some video_id)) = Inr p \<longrightarrow>
        snd (extract_video ydl clk c (Some video_id))
          = cache_store c (video_cache_key video_id) p (now_store clk))
   \<and> (video_id \<noteq> [] \<and> now_check clk' - t < cache_timeout \<longrightarrow>
        extract_video ydl' clk' (cache_store c (video_cache_key video_id) p t) (Some video_id)
          = (Inr p, cache_store c (video_cache_key video_id) p t))
   \<and> (video_id \<noteq> [] \<and> cache_timeout \<le> now_check clk' - t \<longrightarrow>
        fst (extract_video ydl' clk' (cache_store c (video_cache_key video_id) p t) (Some video_id))
          = fst (extract_video ydl' clk' (c(video_cache_key video_id := None)) (Some video_id))
      \<and> (\<forall>e. fst (extract_video ydl' clk' (cache_store c (video_cache_key video_id) p t)
                     (Some video_id)) = Inl e \<longrightarrow>
              snd (extract_video ydl' clk' (cache_store c (video_cache_key video_id) p t)
                     (Some video_id)) = cache_store c (video_cache_key video_id) p t)
      \<and> (\<forall>p'. fst (extract_video ydl' clk' (cache_store c (video_cache_key video_id) p t)
                     (Some video_id)) = Inr p' \<longrightarrow>
              snd (extract_video ydl' clk' (cache_store c (video_cache_key video_id) p t)
                     (Some video_id)) = cache_store c (video_cache_key video_id) p' (now_store clk')))"
proof (intro conjI impI allI)
  show "now - t < cache_timeout \<Longrightarrow> cache_lookup (cache_store c k p t) k now = Some p"
    by (rule cache_lookup_store_fresh)
  show "cache_timeout \<le> now - t \<Longrightarrow> cache_lookup (cache_store c k p t) k now = None"
    by (rule cache_lookup_store_stale)
next
  assume "video_id \<noteq> [] \<and> cache_lookup c (video_cache_key video_id) (now_check clk) = None
        \<and> fst (extract_video ydl clk c (Some video_id)) = Inr p"
  then show "snd (extract_video ydl clk c (Some video_id))
          = cache_store c (video_cache_key video_id) p (now_store clk)"
    by (auto simp add: extract_video_miss split: sum.splits if_splits)
next
  assume "video_id \<noteq> [] \<and> now_check clk' - t < cache_timeout"
  then show "extract_video ydl' clk' (cache_store c (video_cache_key video_id) p t) (Some video_id)
          = (Inr p, cache_store c (video_cache_key video_id) p t)"
    by (simp add: extract_video_hit cache_lookup_store_fresh)
next
  let ?k = "video_cache_key video_id"
  let ?run = "extract_video ydl' clk' (cache_store c ?k p t) (Some video_id)"
  assume h: "video_id \<noteq> [] \<and> cache_timeout \<le> now_check clk' - t"
  then have miss: "cache_lookup (cache_store c ?k p t) ?k (now_check clk') = None"
    by (simp add: cache_lookup_store_stale)
  from h show "fst ?run = fst (extract_video ydl' clk' (c(?k := None)) (Some video_id))"
    by (simp add: extract_video_miss miss cache_lookup_removed split: sum.splits)
  { fix e assume "fst ?run = Inl e"
    with h show "snd ?run = cache_store c ?k p t"
      by (auto simp add: extract_video_miss miss split: sum.splits if_splits) }
  { fix p' assume "fst ?run = Inr p'"
    with h show "snd ?run = cache_store c ?k p' (now_store clk')"
      by (auto simp add: extract_video_miss miss cache_store_twice split: sum.splits if_splits) }
qed

theorem cache_ttl_witness:
  "cache_lookup (cache_store Map.empty ''video_abc'' sample_payload 0) ''video_abc'' 3599999999
     = Some sample_payload
   \<and> cache_lookup (cache_store Map.empty ''video_abc'' sample_payload 0) ''video_abc'' 3600000000
     = None
   \<and> snd (extract_video
            (answering \<lparr>info_fields = [(''url'', PStr ''https://cdn/best'')], info_formats = None\<rparr>)
            (at_time 0) Map.empty (Some ''abc''))
     = cache_store Map.empty (video_cache_key ''abc'') sample_payload 0
   \<and> extract_video (raising ''offline'') (at_time 3599999999)
        (cache_store Map.empty (video_cache_key ''abc'') sample_payload 0) (Some ''abc'')
     = (Inr sample_payload, cache_store Map.empty (video_cache_key ''abc'') sample_payload 0)
   \<and> extract_video (raising ''offline'') (at_time 3600000000)
        (cache_store Map.empty (video_cache_key ''abc'') sample_payload 0) (Some ''abc'')
     = (Inl (Err 500 ''offline''), cache_store Map.empty (video_cache_key ''abc'') sample_payload 0)"
proof -
  let ?c = "cache_store Map.empty (video_cache_key ''abc'') sample_payload 0"
  let ?ok = "answering \<lparr>info_fields = [(''url'', PStr ''https://cdn/best'')], info_formats = None\<rparr>"
  have empty_miss: "cache_lookup Map.empty k n = None" for k n
    by (simp add: cache_lookup_def)
  have first: "fst (extract_video ?ok (at_time 0) Map.empty (Some ''abc'')) = Inr sample_payload"
    by (simp add: extract_video_miss empty_miss answering_def select_video_url_def py_get_def
        sample_payload_def at_time_def)
  have a: "cache_lookup (cache_store Map.empty ''video_abc'' sample_payload 0) ''video_abc'' 3599999999
     = Some sample_payload"
    using cache_ttl [where now = 3599999999 and t = 0 and c = Map.empty and k = "''video_abc''"
        and p = sample_payload]
    by (simp add: cache_timeout_def)
  have b: "cache_lookup (cache_store Map.empty ''video_abc'' sample_payload 0) ''video_abc'' 3600000000
     = None"
    using cache_ttl [where now = 3600000000 and t = 0 and c = Map.empty and k = "''video_abc''"
        and p = sample_payload]
    by (simp add: cache_timeout_def)
  have c: "snd (extract_video ?ok (at_time 0) Map.empty (Some ''abc'')) = ?c"
    using cache_ttl [where video_id = "''abc''" and c = Map.empty and clk = "at_time 0"
        and ydl = ?ok and p = sample_payload] first
    by (simp add: empty_miss at_time_def)
  have d: "extract_video (raising ''offline'') (at_time 3599999999) ?c (Some ''abc'')
     = (Inr sample_payload, ?c)"
    using cache_ttl [where video_id = "''abc''" and c = Map.empty and clk' = "at_time 3599999999"
        and t = 0 and ydl' = "raising ''offline''" and p = sample_payload]
    by (simp add: cache_timeout_def at_time_def)
  have gone: "fst (extract_video (raising ''offline'') (at_time 3600000000)
                (Map.empty(video_cache_key ''abc'' := None)) (Some ''abc'')) = Inl (Err 500 ''offline'')"
    by (simp add: extract_video_miss empty_miss raising_def)
  have e: "extract_video (raising ''offline'') (at_time 3600000000) ?c (Some ''abc'')
     = (Inl (Err 500 ''offline''), ?c)"
    using cache_ttl [where video_id = "''abc''" and c = Map.empty and clk' = "at_time 3600000000"
        and t = 0 and ydl' = "raising ''offline''" and p = sample_payload] gone
    by (simp add: cache_timeout_def at_time_def prod_eq_iff)
  from a b c d e show ?thesis by blast
qed


subsection \<open>Bulk fetch over several channels\<close>








subsection \<open>Manual enrichment and incremental adds (\<open>backend/server.py\<close>)\<close>

lemma fetch_video_info_id [simp]: "v_video_id (fetch_video_info ydl video_id) = video_id"
  by (simp add: fetch_video_info_def split: sum.splits)

lemma entry_video_id [simp]: "v_video_id (entry_video vid_id ent) = vid_id"
  by (simp add: entry_video_def)

lemma create_group_manual_videos_ids:
  "map v_video_id (create_group_manual_videos ydl ids) = filter (\<lambda>v. v \<noteq> []) (map py_strip ids)"
  by (induction ids) (simp_all add: Let_def)

lemma create_group_manual_videos_each:
  "v \<in> set (create_group_manual_videos ydl ids) \<Longrightarrow> v = fetch_video_info ydl (v_video_id v)"
  by (induction ids) (auto simp add: Let_def split: if_splits)

lemma add_manual_existing:
  "existing_ids (add_manual ydl ids b) = existing_ids b \<union> {s \<in> py_strip ` set ids. s \<noteq> []}"
  by (induction ids arbitrary: b) (auto simp add: Let_def)

lemma add_manual_result:
  "\<exists>vs. new_videos (add_manual ydl ids b) = new_videos b @ vs
      \<and> added_count (add_manual ydl ids b) = added_count b + length vs
      \<and> existing_ids (add_manual ydl ids b) = existing_ids b \<union> v_video_id ` set vs
      \<and> distinct (map v_video_id vs)
      \<and> (\<forall>v\<in>set vs. v_video_id v \<notin> existing_ids b \<and> v = fetch_video_info ydl (v_video_id v))"
proof (induction ids arbitrary: b)
  case Nil
  show ?case by simp
next
  case (Cons a ids)
  show ?case
  proof (cases "py_strip a \<noteq> [] \<and> py_strip a \<notin> existing_ids b")
    case True
    let ?f = "fetch_video_info ydl (py_strip a)"
    let ?b1 = "\<lparr> existing_ids = insert (py_strip a) (existing_ids b),
                 new_videos = new_videos b @ [?f],
                 added_count = added_count b + 1 \<rparr>"
    from True have step: "add_manual ydl (a # ids) b = add_manual ydl ids ?b1"
      by (simp add: Let_def)
    from Cons.IH [of ?b1] obtain vs where vs:
      "new_videos (add_manual ydl ids ?b1) = new_videos ?b1 @ vs"
      "added_count (add_manual ydl ids ?b1) = added_count ?b1 + length vs"
      "existing_ids (add_manual ydl ids ?b1) = existing_ids ?b1 \<union> v_video_id ` set vs"
      "distinct (map v_video_id vs)"
      "\<forall>v\<in>set vs. v_video_id v \<notin> existing_ids ?b1 \<and> v = fetch_video_info ydl (v_video_id v)"
      by blast
    have "new_videos (add_manual ydl (a # ids) b) = new_videos b @ (?f # vs)"
      using step vs(1) by simp
    moreover have "added_count (add_manual ydl (a # ids) b) = added_count b + length (?f # vs)"
      using step vs(2) by simp
    moreover have "existing_ids (add_manual ydl (a # ids) b)
                     = existing_ids b \<union> v_video_id ` set (?f # vs)"
      using step vs(3) by simp
    moreover have "distinct (map v_video_id (?f # vs))"
      using vs(4) vs(5) by auto
    moreover have "\<forall>v\<in>set (?f # vs). v_video_id v \<notin> existing_ids b
                      \<and> v = fetch_video_info ydl (v_video_id v)"
      using vs(5) True by auto
    ultimately show ?thesis by blast
  next
    case False
    then have step: "add_manual ydl (a # ids) b = add_manual ydl ids b"
      by (auto simp add: Let_def)
    with Cons.IH [of b] show ?thesis by simp
  qed
qed

lemma add_entries_result:
  "\<exists>vs. new_videos (add_entries ents b) = new_videos b @ vs
      \<and> added_count (add_entries ents b) = added_count b + length vs
      \<and> existing_ids (add_entries ents b) = existing_ids b \<union> v_video_id ` set vs
      \<and> distinct (map v_video_id vs)
      \<and> (\<forall>v\<in>set vs. v_video_id v \<notin> existing_ids b)"
proof (induction ents arbitrary: b)
  case Nil
  show ?case by simp
next
  case (Cons ent ents)
  show ?case
  proof (cases "\<exists>i. e_id ent = Some i \<and> i \<noteq> [] \<and> i \<notin> existing_ids b")
    case True
    then obtain i where i: "e_id ent = Some i" "i \<noteq> []" "i \<notin> existing_ids b" by blast
    let ?f = "entry_video i ent"
    let ?b1 = "\<lparr> existing_ids = insert i (existing_ids b),
                 new_videos = new_videos b @ [?f],
                 added_count = added_count b + 1 \<rparr>"
    from i have step: "add_entries (ent # ents) b = add_entries ents ?b1"
      by simp
    from Cons.IH [of ?b1] obtain vs where vs:
      "new_videos (add_entries ents ?b1) = new_videos ?b1 @ vs"
      "added_count (add_entries ents ?b1) = added_count ?b1 + length vs"
      "existing_ids (add_entries ents ?b1) = existing_ids ?b1 \<union> v_video_id ` set vs"
      "distinct (map v_video_id vs)"
      "\<forall>v\<in>set vs. v_video_id v \<notin> existing_ids ?b1"
      by blast
    have "new_videos (add_entries (ent # ents) b) = new_videos b @ (?f # vs)"
      using step vs(1) by simp
    moreover have "added_count (add_entries (ent # ents) b) = added_count b + length (?f # vs)"
      using step vs(2) by simp
    moreover have "existing_ids (add_entries (ent # ents) b)
                     = existing_ids b \<union> v_video_id ` set (?f # vs)"
      using step vs(3) by simp
    moreover have "distinct (map v_video_id (?f # vs))"
      using vs(4) vs(5) by auto
    moreover have "\<forall>v\<in>set (?f # vs). v_video_id v \<notin> existing_ids b"
      using vs(5) i by auto
    ultimately show ?thesis by blast
  next
    case False
    then have step: "add_entries (ent # ents) b = add_entries ents b"
      by (auto split: option.splits)
    with Cons.IH [of b] show ?thesis by simp
  qed
qed

lemma add_manual_covers:
  assumes "raw \<in> set ids" "py_strip raw \<noteq> []" "py_strip raw \<notin> existing_ids b"
  shows "py_strip raw \<in> v_video_id ` set (new_videos (add_manual ydl ids b))"
proof -
  from add_manual_result [of ydl ids b] obtain vs where vs:
    "new_videos (add_manual ydl ids b) = new_videos b @ vs"
    "existing_ids (add_manual ydl ids b) = existing_ids b \<union> v_video_id ` set vs"
    by blast
  from assms have "py_strip raw \<in> existing_ids (add_manual ydl ids b)"
    by (auto simp add: add_manual_existing)
  with vs(2) assms(3) have "py_strip raw \<in> v_video_id ` set vs" by blast
  with vs(1) show ?thesis by auto
qed

lemma add_manual_ids_independent:
  "map v_video_id (new_videos b) = map v_video_id (new_videos b') \<Longrightarrow>
   existing_ids b = existing_ids b' \<Longrightarrow>
   map v_video_id (new_videos (add_manual ydl ids b))
     = map v_video_id (new_videos (add_manual ydl' ids b'))"
proof (induction ids arbitrary: b b')
  case Nil
  then show ?case by simp
next
  case (Cons raw ids)
  show ?case
  proof (cases "py_strip raw \<noteq> [] \<and> py_strip raw \<notin> existing_ids b")
    case True
    with Cons.prems show ?thesis
      by (simp add: Let_def Cons.IH)
  next
    case False
    with Cons.prems show ?thesis
      by (auto simp add: Let_def intro: Cons.IH)
  qed
qed

lemma insert_videos_result:
  "insert_videos db group_id vs = Inr db' \<Longrightarrow>
   \<exists>rows. db_videos db' = db_videos db @ rows
        \<and> map vr_video_id rows = map v_video_id vs
        \<and> (\<forall>r\<in>set rows. vr_group_id r = group_id)
        \<and> db_groups db' = db_groups db"
proof (induction vs arbitrary: db)
  case Nil
  then show ?case by simp
next
  case (Cons v vs)
  from Cons.prems obtain db1 where db1: "insert_video db group_id v = Inr db1"
    and rest: "insert_videos db1 group_id vs = Inr db'"
    by (auto split: sum.splits)
  from db1 obtain row where row: "db_videos db1 = db_videos db @ [row]"
    "vr_video_id row = v_video_id v" "vr_group_id row = group_id" "db_groups db1 = db_groups db"
    by (auto simp add: insert_video_def split: option.splits if_splits)
  from Cons.IH [OF rest] obtain rows where rows: "db_videos db' = db_videos db1 @ rows"
    "map vr_video_id rows = map v_video_id vs" "\<forall>r\<in>set rows. vr_group_id r = group_id"
    "db_groups db' = db_groups db1"
    by blast
  have "db_videos db' = db_videos db @ (row # rows)" using row(1) rows(1) by simp
  moreover have "map vr_video_id (row # rows) = map v_video_id (v # vs)"
    using row(2) rows(2) by simp
  moreover have "\<forall>r\<in>set (row # rows). vr_group_id r = group_id"
    using row(3) rows(3) by simp
  moreover have "db_groups db' = db_groups db" using row(4) rows(4) by simp
  ultimately show ?case by blast
qed

lemma distinct_key_count:
  "distinct (map f xs) \<Longrightarrow> k \<in> f ` set xs \<Longrightarrow> length (filter (\<lambda>r. f r = k) xs) = 1"
proof (induction xs)
  case Nil
  then show ?case by simp
next
  case (Cons x xs)
  show ?case
  proof (cases "f x = k")
    case True
    from Cons.prems(1) True have notin: "k \<notin> f ` set xs" by simp
    have "\<forall>r\<in>set xs. f r \<noteq> k"
    proof
      fix r assume "r \<in> set xs"
      then have "f r \<in> f ` set xs" by (rule imageI)
      with notin show "f r \<noteq> k" by metis
    qed
    then have "filter (\<lambda>r. f r = k) xs = []"
      by (simp add: filter_empty_conv)
    with True show ?thesis by simp
  next
    case False
    with Cons show ?thesis by auto
  qed
qed

lemma collect_new_videos_result:
  assumes "collect_new_videos ydl ydl_flat db group_id req = Inr b"
  shows "\<exists>vs. new_videos b = vs \<and> added_count b = length vs
            \<and> distinct (map v_video_id vs)
            \<and> (\<forall>v\<in>set vs. v_video_id v \<notin> group_video_ids db group_id)"
proof -
  let ?start = "\<lparr> existing_ids = group_video_ids db group_id, new_videos = [], added_count = 0 \<rparr>"
  from assms consider "b = ?start" | ents where "b = add_entries ents ?start"
    | ids where "b = add_manual ydl ids ?start"
    by (auto simp add: collect_new_videos_def Let_def split: option.splits sum.splits if_splits)
  then show ?thesis
  proof cases
    case 1
    then show ?thesis by simp
  next
    case 2
    with add_entries_result [of ents ?start] show ?thesis by auto
  next
    case 3
    with add_manual_result [of ydl ids ?start] show ?thesis by auto
  qed
qed

lemma add_videos_to_group_rows:
  assumes "add_videos_to_group ydl ydl_flat db group_id req = (Inr r, db')"
  shows "\<exists>rows. db_videos db' = db_videos db @ rows
            \<and> ar_added_count r = length rows
            \<and> distinct (map vr_video_id rows)
            \<and> (\<forall>x\<in>set rows. vr_group_id x = group_id
                               \<and> vr_video_id x \<notin> group_video_ids db group_id)
            \<and> db_groups db' = db_groups db"
proof -
  from assms obtain b where b: "collect_new_videos ydl ydl_flat db group_id req = Inr b"
    and ins: "insert_videos db group_id (new_videos b) = Inr db'"
    and r: "ar_added_count r = added_count b"
    by (auto simp add: add_videos_to_group_def split: if_splits sum.splits)
  from collect_new_videos_result [OF b] have vs: "added_count b = length (new_videos b)"
    "distinct (map v_video_id (new_videos b))"
    "\<forall>v\<in>set (new_videos b). v_video_id v \<notin> group_video_ids db group_id"
    by auto
  from insert_videos_result [OF ins] obtain rows where rows:
    "db_videos db' = db_videos db @ rows" "map vr_video_id rows = map v_video_id (new_videos b)"
    "\<forall>r\<in>set rows. vr_group_id r = group_id" "db_groups db' = db_groups db"
    by blast
  have len: "length rows = length (new_videos b)"
    using rows(2) by (metis length_map)
  have fresh: "\<forall>x\<in>set rows. vr_video_id x \<notin> group_video_ids db group_id"
  proof
    fix x assume "x \<in> set rows"
    then have "vr_video_id x \<in> set (map vr_video_id rows)" by simp
    with rows(2) have "vr_video_id x \<in> v_video_id ` set (new_videos b)" by simp
    with vs(3) show "vr_video_id x \<notin> group_video_ids db group_id" by auto
  qed
  from rows vs r len fresh show ?thesis by auto
qed

lemma add_videos_to_group_member:
  assumes "group_exists db group_id" "py_strip V \<in> group_video_ids db group_id"
  shows "add_videos_to_group ydl ydl_flat db group_id
           \<lparr> rq_video_ids = [V], rq_playlist_id = None, rq_channel_id = None, rq_max_results = m \<rparr>
         = (Inr \<lparr> ar_added_count = 0, ar_group = load_group db group_id \<rparr>, db)"
  using assms
  by (simp add: add_videos_to_group_def collect_new_videos_def given_def Let_def)

lemma add_videos_to_group_blank:
  assumes "group_exists db group_id" "py_strip V = []"
  shows "add_videos_to_group ydl ydl_flat db group_id
           \<lparr> rq_video_ids = [V], rq_playlist_id = None, rq_channel_id = None, rq_max_results = m \<rparr>
         = (Inr \<lparr> ar_added_count = 0, ar_group = load_group db group_id \<rparr>, db)"
  using assms
  by (simp add: add_videos_to_group_def collect_new_videos_def given_def Let_def)

lemma add_videos_to_group_unique:
  assumes "add_videos_to_group ydl ydl_flat db group_id req = (Inr r, db')"
    and "distinct (map (\<lambda>r. (vr_group_id r, vr_video_id r)) (db_videos db))"
  shows "distinct (map (\<lambda>r. (vr_group_id r, vr_video_id r)) (db_videos db'))"
proof -
  from add_videos_to_group_rows [OF assms(1)] obtain rows where rows:
    "db_videos db' = db_videos db @ rows" "distinct (map vr_video_id rows)"
    "\<forall>x\<in>set rows. vr_group_id x = group_id \<and> vr_video_id x \<notin> group_video_ids db group_id"
    by blast
  have "distinct (map (\<lambda>r. (vr_group_id r, vr_video_id r)) rows)"
    using rows(2) by (simp add: distinct_map inj_on_def)
  moreover have "(\<lambda>r. (vr_group_id r, vr_video_id r)) ` set (db_videos db)
                   \<inter> (\<lambda>r. (vr_group_id r, vr_video_id r)) ` set rows = {}"
  proof -
    have "(vr_group_id a, vr_video_id a) \<noteq> (vr_group_id x, vr_video_id x)"
      if a: "a \<in> set (db_videos db)" and x: "x \<in> set rows" for a x
    proof
      assume eq: "(vr_group_id a, vr_video_id a) = (vr_group_id x, vr_video_id x)"
      from rows(3) x have gx: "vr_group_id x = group_id"
        and fresh: "vr_video_id x \<notin> group_video_ids db group_id" by auto
      from eq gx a have "a \<in> set (filter (\<lambda>r. vr_group_id r = group_id) (db_videos db))"
        by simp
      then have "vr_video_id a \<in> group_video_ids db group_id"
        unfolding group_video_ids_def by (rule imageI)
      with eq fresh show False by simp
    qed
    then show ?thesis by blast
  qed
  ultimately show ?thesis using assms(2) rows(1) by simp
qed

lemma add_videos_to_group_twice:
  assumes ex: "group_exists db group_id"
    and uniq: "distinct (map (\<lambda>r. (vr_group_id r, vr_video_id r)) (db_videos db))"
    and first: "add_videos_to_group ydl ydl_flat db group_id
           \<lparr> rq_video_ids = [V], rq_playlist_id = None, rq_channel_id = None, rq_max_results = m \<rparr>
         = (Inr r1, db1)"
  shows "add_videos_to_group ydl' ydl_flat' db1 group_id
           \<lparr> rq_video_ids = [V], rq_playlist_id = None, rq_channel_id = None, rq_max_results = m \<rparr>
         = (Inr \<lparr> ar_added_count = 0, ar_group = load_group db1 group_id \<rparr>, db1)"
    and "py_strip V \<noteq> [] \<Longrightarrow>
         length (filter (\<lambda>r. vr_group_id r = group_id \<and> vr_video_id r = py_strip V)
                   (db_videos db1)) = 1"
proof -
  let ?req = "\<lparr> rq_video_ids = [V], rq_playlist_id = None, rq_channel_id = None, rq_max_results = m \<rparr>"
  from add_videos_to_group_rows [OF first] have groups: "db_groups db1 = db_groups db"
    by blast
  then have ex1: "group_exists db1 group_id" using ex by (simp add: group_exists_def)
  have uniq1: "distinct (map (\<lambda>r. (vr_group_id r, vr_video_id r)) (db_videos db1))"
    using add_videos_to_group_unique [OF first uniq] .
  have member1: "py_strip V \<noteq> [] \<Longrightarrow> py_strip V \<in> group_video_ids db1 group_id"
  proof (cases "py_strip V \<in> group_video_ids db group_id")
    case True
    with first ex have "db1 = db" by (simp add: add_videos_to_group_member)
    with True show ?thesis by simp
  next
    case False
    assume ne: "py_strip V \<noteq> []"
    from False ne first ex obtain db2 where
      "insert_videos db group_id [fetch_video_info ydl (py_strip V)] = Inr db2" "db1 = db2"
      by (auto simp add: add_videos_to_group_def collect_new_videos_def given_def Let_def
          split: sum.splits)
    then have "insert_videos db group_id [fetch_video_info ydl (py_strip V)] = Inr db1" by simp
    from insert_videos_result [OF this] obtain rows where
      "db_videos db1 = db_videos db @ rows" "map vr_video_id rows = [py_strip V]"
      "\<forall>r\<in>set rows. vr_group_id r = group_id"
      by auto
    then show ?thesis by (auto simp add: group_video_ids_def)
  qed
  show "add_videos_to_group ydl' ydl_flat' db1 group_id ?req
         = (Inr \<lparr> ar_added_count = 0, ar_group = load_group db1 group_id \<rparr>, db1)"
  proof (cases "py_strip V = []")
    case True
    with ex1 show ?thesis by (rule add_videos_to_group_blank)
  next
    case False
    with member1 ex1 show ?thesis by (simp add: add_videos_to_group_member)
  qed
  show "length (filter (\<lambda>r. vr_group_id r = group_id \<and> vr_video_id r = py_strip V)
                   (db_videos db1)) = 1" if "py_strip V \<noteq> []"
  proof -
    from member1 [OF that]
    have "(group_id, py_strip V) \<in> (\<lambda>r. (vr_group_id r, vr_video_id r)) ` set (db_videos db1)"
      by (auto simp add: group_video_ids_def)
    from distinct_key_count [OF uniq1 this] show ?thesis by simp
  qed
qed

text \<open>
  C9.  When the lookup of a video id raises, \<open>fetch_video_info\<close> answers with the
  placeholder: title \<open>Unknown Title\<close>, uploader \<open>Unknown\<close>, duration 0 and the thumbnail
  address built from the id.  The batch is not aborted: the loop of \<open>create_group\<close>
  yields one record for every id that is not blank, each of them what \<open>fetch_video_info\<close>
  gives for it; in \<open>add_videos_to_group\<close> the ids that are processed do not depend on which
  lookups fail, and every id that is not blank and not yet in the group gets its record.
\<close>

theorem fetch_video_info_placeholder:
  "(ydl (watch_url video_id) = Inl e \<longrightarrow>
      fetch_video_info ydl video_id =
        \<lparr> v_video_id = video_id,
          v_title = PStr ''Unknown Title'',
          v_thumbnail = PStr (''https://i.ytimg.com/vi/'' @ video_id @ ''/hqdefault.jpg''),
          v_duration = PInt 0,
          v_uploader = PStr ''Unknown'' \<rparr>)
   \<and> map v_video_id (create_group_manual_videos ydl ids) = filter (\<lambda>v. v \<noteq> []) (map py_strip ids)
   \<and> (\<forall>v\<in>set (create_group_manual_videos ydl ids). v = fetch_video_info ydl (v_video_id v))
   \<and> map v_video_id (new_videos (add_manual ydl ids b))
       = map v_video_id (new_videos (add_manual ydl' ids b))
   \<and> (\<forall>raw\<in>set ids.
         new_videos b = [] \<and> py_strip raw \<noteq> [] \<and> py_strip raw \<notin> existing_ids b \<longrightarrow>
         fetch_video_info ydl (py_strip raw) \<in> set (new_videos (add_manual ydl ids b)))"
proof (intro conjI impI ballI)
  assume "ydl (watch_url video_id) = Inl e"
  then show "fetch_video_info ydl video_id =
        \<lparr> v_video_id = video_id,
          v_title = PStr ''Unknown Title'',
          v_thumbnail = PStr (''https://i.ytimg.com/vi/'' @ video_id @ ''/hqdefault.jpg''),
          v_duration = PInt 0,
          v_uploader = PStr ''Unknown'' \<rparr>"
    by (simp add: fetch_video_info_def thumbnail_template_def)
next
  show "map v_video_id (create_group_manual_videos ydl ids) = filter (\<lambda>v. v \<noteq> []) (map py_strip ids)"
    by (rule create_group_manual_videos_ids)
next
  fix v assume "v \<in> set (create_group_manual_videos ydl ids)"
  then show "v = fetch_video_info ydl (v_video_id v)"
    by (rule create_group_manual_videos_each)
next
  show "map v_video_id (new_videos (add_manual ydl ids b))
       = map v_video_id (new_videos (add_manual ydl' ids b))"
    by (rule add_manual_ids_independent) simp_all
next
  fix raw
  assume raw: "raw \<in> set ids"
    and h: "new_videos b = [] \<and> py_strip raw \<noteq> [] \<and> py_strip raw \<notin> existing_ids b"
  from add_manual_result [of ydl ids b] h obtain vs where vs:
    "new_videos (add_manual ydl ids b) = vs"
    "\<forall>v\<in>set vs. v = fetch_video_info ydl (v_video_id v)"
    by auto
  from add_manual_covers [OF raw] h
  have "py_strip raw \<in> v_video_id ` set (new_videos (add_manual ydl ids b))" by simp
  then obtain v where v: "v \<in> set vs" "v_video_id v = py_strip raw"
    using vs(1) by auto
  with vs(2) have "v = fetch_video_info ydl (py_strip raw)" by auto
  with v(1) vs(1) show "fetch_video_info ydl (py_strip raw) \<in> set (new_videos (add_manual ydl ids b))"
    by simp
qed

theorem fetch_video_info_placeholder_witness:
  "fetch_video_info one_down ''bad1'' =
     \<lparr> v_video_id = ''bad1'',
       v_title = PStr ''Unknown Title'',
       v_thumbnail = PStr ''https://i.ytimg.com/vi/bad1/hqdefault.jpg'',
       v_duration = PInt 0,
       v_uploader = PStr ''Unknown'' \<rparr>
   \<and> map v_video_id (create_group_manual_videos one_down [''ok1'', '' bad1 '', '' '', ''ok2''])
       = [''ok1'', ''bad1'', ''ok2'']
   \<and> fetch_video_info one_down ''bad1''
       \<in> set (create_group_manual_videos one_down [''ok1'', '' bad1 '', '' '', ''ok2''])
   \<and> fetch_video_info one_down ''ok2''
       \<in> set (new_videos (add_manual one_down [''ok1'', '' bad1 '', '' '', ''ok2'']
                 \<lparr> existing_ids = {''ok1''}, new_videos = [], added_count = 0 \<rparr>))"
proof -
  have strips: "py_strip ''ok1'' = ''ok1''" "py_strip '' bad1 '' = ''bad1''" "py_strip '' '' = []"
    "py_strip ''ok2'' = ''ok2''"
    by code_simp+
  have down: "one_down (watch_url ''bad1'') = Inl ''Video unavailable''"
    by (simp add: one_down_def)
  have a: "fetch_video_info one_down ''bad1'' =
     \<lparr> v_video_id = ''bad1'',
       v_title = PStr ''Unknown Title'',
       v_thumbnail = PStr ''https://i.ytimg.com/vi/bad1/hqdefault.jpg'',
       v_duration = PInt 0,
       v_uploader = PStr ''Unknown'' \<rparr>"
    using fetch_video_info_placeholder [where ydl = one_down and video_id = "''bad1''"
        and e = "''Video unavailable''", THEN conjunct1] down
    by simp
  have b: "map v_video_id (create_group_manual_videos one_down [''ok1'', '' bad1 '', '' '', ''ok2''])
       = [''ok1'', ''bad1'', ''ok2'']"
    using fetch_video_info_placeholder [where ydl = one_down
        and ids = "[''ok1'', '' bad1 '', '' '', ''ok2'']", THEN conjunct2, THEN conjunct1] strips
    by simp
  have c: "fetch_video_info one_down ''bad1''
       \<in> set (create_group_manual_videos one_down [''ok1'', '' bad1 '', '' '', ''ok2''])"
    using strips by (simp add: Let_def)
  have d: "fetch_video_info one_down ''ok2''
       \<in> set (new_videos (add_manual one_down [''ok1'', '' bad1 '', '' '', ''ok2'']
                 \<lparr> existing_ids = {''ok1''}, new_videos = [], added_count = 0 \<rparr>))"
    using fetch_video_info_placeholder [where ydl = one_down
        and ids = "[''ok1'', '' bad1 '', '' '', ''ok2'']"
        and b = "\<lparr> existing_ids = {''ok1''}, new_videos = [], added_count = 0 \<rparr>",
        THEN conjunct2, THEN conjunct2, THEN conjunct2, THEN conjunct2, THEN bspec,
        of "''ok2''"] strips
    by simp
  from a b c d show ?thesis by blast
qed

text \<open>
  C3.  Adding an id that is already a member of the group (after \<open>strip\<close>) in
  \<open>add_videos_to_group\<close> answers with success and \<open>added_count\<close> 0 and leaves the store as
  it is.  After a successful add of one id, a second add of the same id answers with
  success and \<open>added_count\<close> 0, changes nothing, and the group holds exactly one row for
  the id (for a store that respects the uniqueness of \<open>(group_id, video_id)\<close>, and an id
  that is not blank).  For every request that succeeds, the rows added are new to the
  group, pairwise different, and \<open>added_count\<close> is their number.
\<close>

theorem add_videos_to_group_skips_duplicates:
  "(group_exists db group_id \<and> py_strip V \<in> group_video_ids db group_id \<longrightarrow>
      add_videos_to_group ydl ydl_flat db group_id
        \<lparr> rq_video_ids = [V], rq_playlist_id = None, rq_channel_id = None, rq_max_results = m \<rparr>
      = (Inr \<lparr> ar_added_count = 0, ar_group = load_group db group_id \<rparr>, db))
   \<and> (group_exists db group_id
        \<and> distinct (map (\<lambda>r. (vr_group_id r, vr_video_id r)) (db_videos db))
        \<and> add_videos_to_group ydl ydl_flat db group_id
            \<lparr> rq_video_ids = [V], rq_playlist_id = None, rq_channel_id = None, rq_max_results = m \<rparr>
          = (Inr ra, dba) \<longrightarrow>
        add_videos_to_group ydl' ydl_flat' dba group_id
          \<lparr> rq_video_ids = [V], rq_playlist_id = None, rq_channel_id = None, rq_max_results = m \<rparr>
        = (Inr \<lparr> ar_added_count = 0, ar_group = load_group dba group_id \<rparr>, dba)
      \<and> (py_strip V \<noteq> [] \<longrightarrow>
            length (filter (\<lambda>r. vr_group_id r = group_id \<and> vr_video_id r = py_strip V)
                      (db_videos dba)) = 1))
   \<and> (add_videos_to_group ydl ydl_flat db group_id req = (Inr r, db') \<longrightarrow>
        (\<exists>rows. db_videos db' = db_videos db @ rows
              \<and> ar_added_count r = length rows
              \<and> distinct (map vr_video_id rows)
              \<and> (\<forall>x\<in>set rows. vr_group_id x = group_id
                                 \<and> vr_video_id x \<notin> group_video_ids db group_id)))"
proof (intro conjI impI)
  assume "group_exists db group_id \<and> py_strip V \<in> group_video_ids db group_id"
  then show "add_videos_to_group ydl ydl_flat db group_id
        \<lparr> rq_video_ids = [V], rq_playlist_id = None, rq_channel_id = None, rq_max_results = m \<rparr>
      = (Inr \<lparr> ar_added_count = 0, ar_group = load_group db group_id \<rparr>, db)"
    by (simp add: add_videos_to_group_member)
next
  assume h: "group_exists db group_id
        \<and> distinct (map (\<lambda>r. (vr_group_id r, vr_video_id r)) (db_videos db))
        \<and> add_videos_to_group ydl ydl_flat db group_id
            \<lparr> rq_video_ids = [V], rq_playlist_id = None, rq_channel_id = None, rq_max_results = m \<rparr>
          = (Inr ra, dba)"
  then show "add_videos_to_group ydl' ydl_flat' dba group_id
          \<lparr> rq_video_ids = [V], rq_playlist_id = None, rq_channel_id = None, rq_max_results = m \<rparr>
        = (Inr \<lparr> ar_added_count = 0, ar_group = load_group dba group_id \<rparr>, dba)"
    using add_videos_to_group_twice(1) by blast
  assume "py_strip V \<noteq> []"
  with h show "length (filter (\<lambda>r. vr_group_id r = group_id \<and> vr_video_id r = py_strip V)
                      (db_videos dba)) = 1"
    using add_videos_to_group_twice(2) by blast
next
  assume "add_videos_to_group ydl ydl_flat db group_id req = (Inr r, db')"
  from add_videos_to_group_rows [OF this]
  show "\<exists>rows. db_videos db' = db_videos db @ rows
              \<and> ar_added_count r = length rows
              \<and> distinct (map vr_video_id rows)
              \<and> (\<forall>x\<in>set rows. vr_group_id x = group_id
                                 \<and> vr_video_id x \<notin> group_video_ids db group_id)"
    by blast
qed

theorem add_videos_to_group_skips_duplicates_witness:
  "add_videos_to_group one_down no_listing kids_db ''g1'' (manual_request ['' abc123 ''])
     = (Inr \<lparr> ar_added_count = 1, ar_group = load_group kids_db1 ''g1'' \<rparr>, kids_db1)
   \<and> add_videos_to_group one_down no_listing kids_db1 ''g1'' (manual_request ['' abc123 ''])
     = (Inr \<lparr> ar_added_count = 0, ar_group = load_group kids_db1 ''g1'' \<rparr>, kids_db1)
   \<and> length (filter (\<lambda>r. vr_group_id r = ''g1'' \<and> vr_video_id r = ''abc123'') (db_videos kids_db1))
     = 1"
proof -
  have strip: "py_strip '' abc123 '' = ''abc123''" by code_simp
  have ex: "group_exists kids_db ''g1''" by (simp add: group_exists_def kids_db_def)
  have uniq: "distinct (map (\<lambda>r. (vr_group_id r, vr_video_id r)) (db_videos kids_db))"
    by (simp add: kids_db_def)
  have first: "add_videos_to_group one_down no_listing kids_db ''g1'' (manual_request ['' abc123 ''])
     = (Inr \<lparr> ar_added_count = 1, ar_group = load_group kids_db1 ''g1'' \<rparr>, kids_db1)"
    by code_simp
  from add_videos_to_group_skips_duplicates
    [where db = kids_db and group_id = "''g1''" and V = "'' abc123 ''" and m = None
      and ydl = one_down and ydl_flat = no_listing and ydl' = one_down and ydl_flat' = no_listing
      and ra = "\<lparr> ar_added_count = 1, ar_group = load_group kids_db1 ''g1'' \<rparr>"
      and dba = kids_db1, THEN conjunct2, THEN conjunct1]
    ex uniq first strip
  have "add_videos_to_group one_down no_listing kids_db1 ''g1'' (manual_request ['' abc123 ''])
     = (Inr \<lparr> ar_added_count = 0, ar_group = load_group kids_db1 ''g1'' \<rparr>, kids_db1)
   \<and> length (filter (\<lambda>r. vr_group_id r = ''g1'' \<and> vr_video_id r = ''abc123'') (db_videos kids_db1))
     = 1"
    by (simp add: manual_request_def)
  with first show ?thesis by blast
qed


subsection \<open>Groups and ordered members (\<open>server.py\<close>)\<close>

lemma fold_max_Max:
  "fold (\<lambda>x m. max (f x) m) xs (a::int) = Max (insert a (f ` set xs))"
proof -
  have "fold (\<lambda>x m. max (f x) m) xs a = fold max (map f xs) a"
    by (simp add: fold_map comp_def)
  also have "\<dots> = Max (set (a # map f xs))"
    by (rule Max.set_eq_fold [symmetric])
  finally show ?thesis by simp
qed

lemma max_position_eq:
  "max_position db g =
     (if members db g = [] then None else Some (Max (gv_position ` set (members db g))))"
  by (cases "members db g") (simp_all add: max_position_def fold_max_Max)

lemma Max_position_bounds:
  assumes "ms \<noteq> []"
  shows "Max (gv_position ` set ms) \<in> gv_position ` set ms"
    and "r \<in> set ms \<Longrightarrow> gv_position r \<le> Max (gv_position ` set ms)"
  using assms by (auto intro!: Max_in Max_ge)

lemma add_video_to_group_fails:
  "add_video_to_group db g body = (Inl e, db') \<Longrightarrow> db' = db"
  by (auto simp add: add_video_to_group_def Let_def split: option.splits if_splits prod.splits)

lemma add_video_to_group_succeeds:
  assumes "add_video_to_group db g body = (Inr av, db')"
  shows "\<exists>row. group_videos db' = group_videos db @ [row]
           \<and> gv_group_id row = g \<and> gv_position row = av_position av \<and> gv_id row = av_id av
           \<and> gv_video_thumbnail row = sql_text (av_video_thumbnail av)
           \<and> gv_video_id row \<notin> gv_video_id ` set (members db g)
           \<and> av_position av = (case max_position db g of None \<Rightarrow> 1 | Some m \<Rightarrow> m + 1)
           \<and> video_groups db' =
               (if av_position av = 1
                then video_groups (set_thumbnail db g (sql_text (av_video_thumbnail av)))
                else video_groups db)
           \<and> (\<exists>grp\<in>set (video_groups db). vg_id grp = g)"
  using assms
  by (auto simp add: add_video_to_group_def Let_def set_thumbnail_def
      split: option.splits if_splits prod.splits)

lemma first_by_position_None: "first_by_position ms = None \<longleftrightarrow> ms = []"
  by (induction ms) (auto split: option.splits)

lemma first_by_position_min:
  "first_by_position ms = Some r \<Longrightarrow>
   r \<in> set ms \<and> (\<forall>r'\<in>set ms. gv_position r \<le> gv_position r')"
proof (induction ms arbitrary: r)
  case Nil
  then show ?case by simp
next
  case (Cons a ms)
  show ?case
  proof (cases "first_by_position ms")
    case None
    then have "ms = []" by (simp add: first_by_position_None)
    with Cons.prems None show ?thesis by simp
  next
    case (Some m)
    from Cons.IH [OF Some] have m: "m \<in> set ms" "\<forall>r'\<in>set ms. gv_position m \<le> gv_position r'"
      by auto
    show ?thesis
    proof (cases "gv_position a \<le> gv_position m")
      case True
      with Some Cons.prems have "r = a" by simp
      with True m show ?thesis by fastforce
    next
      case False
      with Some Cons.prems have "r = m" by simp
      with False m show ?thesis by fastforce
    qed
  qed
qed

lemma minimal_unique:
  assumes "distinct (map gv_position ms)"
    and "r \<in> set ms" "\<forall>r'\<in>set ms. gv_position r \<le> gv_position r'"
    and "s \<in> set ms" "\<forall>r'\<in>set ms. gv_position s \<le> gv_position r'"
  shows "r = s"
proof -
  from assms(2-5) have "gv_position r = gv_position s" by fastforce
  with assms(1,2,4) show ?thesis by (meson distinct_map inj_onD)
qed

lemma members_filter:
  "group_videos db' = filter P (group_videos db) \<Longrightarrow> members db' g = filter P (members db g)"
  by (simp add: members_def conj_commute)

lemma members_same:
  "group_videos db' = group_videos db \<Longrightarrow> members db' g = members db g"
  by (simp add: members_def)

lemma catalog_ok_same:
  "group_videos db' = group_videos db \<Longrightarrow> catalog_ok db \<Longrightarrow> catalog_ok db'"
  by (simp add: catalog_ok_def members_def)

lemma catalog_ok_filter:
  assumes gv: "group_videos db' = filter P (group_videos db)" and ok: "catalog_ok db"
  shows "catalog_ok db'"
proof -
  have m: "members db' g = filter P (members db g)" for g
    using gv by (rule members_filter)
  from ok have "\<forall>r\<in>set (group_videos db'). 1 \<le> gv_position r"
    by (simp add: catalog_ok_def gv)
  moreover from ok have "distinct (map (\<lambda>r. (gv_group_id r, gv_video_id r)) (group_videos db'))"
    by (simp add: catalog_ok_def gv distinct_map_filter)
  moreover from ok have "\<forall>r\<in>set (group_videos db'). distinct (map gv_position (members db' (gv_group_id r)))"
    by (simp add: catalog_ok_def gv m distinct_map_filter)
  ultimately show ?thesis by (simp add: catalog_ok_def)
qed

lemma catalog_ok_positions_distinct:
  assumes "catalog_ok db"
  shows "distinct (map gv_position (members db g))"
proof (cases "members db g")
  case Nil
  then show ?thesis by simp
next
  case (Cons r rs)
  then have "r \<in> set (members db g)" by simp
  then have "r \<in> set (group_videos db)" "gv_group_id r = g"
    by (simp_all add: members_def)
  with assms show ?thesis by (auto simp add: catalog_ok_def)
qed

lemma catalog_ok_positions:
  "catalog_ok db \<Longrightarrow> r \<in> set (members db g) \<Longrightarrow> 1 \<le> gv_position r"
  by (simp add: catalog_ok_def members_def)

lemma next_position_fresh:
  assumes pos: "\<forall>r\<in>set (members db g). 1 \<le> gv_position r"
  shows "1 \<le> (case max_position db g of None \<Rightarrow> 1 | Some m \<Rightarrow> m + 1)"
    and "\<forall>r\<in>set (members db g). gv_position r < (case max_position db g of None \<Rightarrow> 1 | Some m \<Rightarrow> m + 1)"
    and "members db g \<noteq> [] \<Longrightarrow> 1 < (case max_position db g of None \<Rightarrow> 1 | Some m \<Rightarrow> m + 1)"
proof -
  show "1 \<le> (case max_position db g of None \<Rightarrow> 1 | Some m \<Rightarrow> m + 1)"
  proof (cases "members db g = []")
    case True
    then show ?thesis by (simp add: max_position_eq)
  next
    case False
    from Max_position_bounds(1) [OF False] pos
    have "1 \<le> Max (gv_position ` set (members db g))" by auto
    with False show ?thesis by (simp add: max_position_eq)
  qed
  show "\<forall>r\<in>set (members db g). gv_position r < (case max_position db g of None \<Rightarrow> 1 | Some m \<Rightarrow> m + 1)"
  proof
    fix r assume r: "r \<in> set (members db g)"
    then have ne: "members db g \<noteq> []" by auto
    from Max_position_bounds(2) [OF ne r] ne
    show "gv_position r < (case max_position db g of None \<Rightarrow> 1 | Some m \<Rightarrow> m + 1)"
      by (simp add: max_position_eq)
  qed
  show "1 < (case max_position db g of None \<Rightarrow> 1 | Some m \<Rightarrow> m + 1)" if ne: "members db g \<noteq> []"
  proof -
    from Max_position_bounds(1) [OF ne] pos
    have "1 \<le> Max (gv_position ` set (members db g))" by auto
    with ne show ?thesis by (simp add: max_position_eq)
  qed
qed

lemma catalog_ok_add:
  assumes add: "add_video_to_group db g body = (Inr av, db')" and ok: "catalog_ok db"
  shows "catalog_ok db'"
proof -
  from add_video_to_group_succeeds [OF add] obtain row where row:
    "group_videos db' = group_videos db @ [row]" "gv_group_id row = g"
    "gv_position row = av_position av"
    "gv_video_id row \<notin> gv_video_id ` set (members db g)"
    "av_position av = (case max_position db g of None \<Rightarrow> 1 | Some m \<Rightarrow> m + 1)"
    by blast
  have pos: "\<forall>r\<in>set (members db g). 1 \<le> gv_position r"
    using ok by (simp add: catalog_ok_def members_def)
  have p1: "1 \<le> gv_position row"
    using next_position_fresh(1) [OF pos] row(3,5) by simp
  have above: "\<forall>r\<in>set (members db g). gv_position r < gv_position row"
    using next_position_fresh(2) [OF pos] row(3,5) by simp
  have mem_g: "members db' g = members db g @ [row]"
    using row(1,2) by (simp add: members_def)
  have mem_other: "members db' h = members db h" if "h \<noteq> g" for h
    using row(1,2) that by (auto simp add: members_def)
  have a: "\<forall>r\<in>set (group_videos db'). 1 \<le> gv_position r"
    using ok p1 row(1) by (simp add: catalog_ok_def)
  have "(gv_group_id row, gv_video_id row)
          \<notin> (\<lambda>r. (gv_group_id r, gv_video_id r)) ` set (group_videos db)"
  proof
    assume "(gv_group_id row, gv_video_id row)
              \<in> (\<lambda>r. (gv_group_id r, gv_video_id r)) ` set (group_videos db)"
    then obtain r where r: "r \<in> set (group_videos db)" "gv_group_id r = g"
      "gv_video_id r = gv_video_id row"
      using row(2) by auto
    then have "r \<in> set (members db g)" by (simp add: members_def)
    then have "gv_video_id r \<in> gv_video_id ` set (members db g)" by (rule imageI)
    with r(3) row(4) show False by simp
  qed
  with ok have b: "distinct (map (\<lambda>r. (gv_group_id r, gv_video_id r)) (group_videos db'))"
    by (simp add: catalog_ok_def row(1))
  have dg: "distinct (map gv_position (members db' g))"
  proof -
    have "gv_position row \<notin> gv_position ` set (members db g)"
      using above by auto
    with catalog_ok_positions_distinct [OF ok, of g] show ?thesis
      by (simp add: mem_g)
  qed
  have c: "\<forall>r\<in>set (group_videos db'). distinct (map gv_position (members db' (gv_group_id r)))"
  proof
    fix r assume "r \<in> set (group_videos db')"
    show "distinct (map gv_position (members db' (gv_group_id r)))"
    proof (cases "gv_group_id r = g")
      case True
      with dg show ?thesis by simp
    next
      case False
      with mem_other catalog_ok_positions_distinct [OF ok, of "gv_group_id r"]
      show ?thesis by simp
    qed
  qed
  from a b c show ?thesis by (simp add: catalog_ok_def)
qed

lemma create_group_group_videos:
  "group_videos (snd (create_group db body)) = group_videos db"
  by (simp add: create_group_def Let_def split: option.splits)

lemma delete_group_group_videos:
  "\<exists>P. group_videos (snd (delete_group db g)) = filter P (group_videos db)"
proof (cases "foreign_keys \<and> 0 < length (filter (\<lambda>x. vg_id x = g) (video_groups db))")
  case True
  then have "group_videos (snd (delete_group db g))
               = filter (\<lambda>r. gv_group_id r \<noteq> g) (group_videos db)"
    by (simp add: delete_group_def sql_delete_group_def Let_def)
  then show ?thesis by blast
next
  case False
  then have "group_videos (snd (delete_group db g)) = filter (\<lambda>r. True) (group_videos db)"
    by (auto simp add: delete_group_def sql_delete_group_def Let_def)
  then show ?thesis by blast
qed

lemma delete_video_from_group_group_videos:
  "group_videos (snd (delete_video_from_group db g v))
     = filter (\<lambda>r. \<not> (gv_group_id r = g \<and> gv_id r = v)) (group_videos db)"
  by (simp add: delete_video_from_group_def set_thumbnail_def Let_def)

lemma catalog_ok_handle: "catalog_ok db \<Longrightarrow> catalog_ok (handle db req)"
proof (cases req)
  case (CreateGroup body)
  assume "catalog_ok db"
  with CreateGroup show ?thesis
    by (simp add: catalog_ok_same [OF create_group_group_videos])
next
  case (AddVideoToGroup g body)
  assume ok: "catalog_ok db"
  obtain res db' where res: "add_video_to_group db g body = (res, db')"
    by (cases "add_video_to_group db g body")
  show ?thesis
  proof (cases res)
    case (Inl e)
    with res have "db' = db" by (simp add: add_video_to_group_fails)
    with ok res AddVideoToGroup show ?thesis by simp
  next
    case (Inr av)
    with res ok have "catalog_ok db'" by (simp add: catalog_ok_add)
    with res AddVideoToGroup show ?thesis by simp
  qed
next
  case (DeleteGroup g)
  assume ok: "catalog_ok db"
  from delete_group_group_videos [of db g] obtain P where
    "group_videos (snd (delete_group db g)) = filter P (group_videos db)" by blast
  from catalog_ok_filter [OF this ok] DeleteGroup show ?thesis by simp
next
  case (DeleteVideoFromGroup g v)
  assume ok: "catalog_ok db"
  from catalog_ok_filter [OF delete_video_from_group_group_videos ok] DeleteVideoFromGroup
  show ?thesis by simp
qed

lemma catalog_ok_foldl: "catalog_ok db \<Longrightarrow> catalog_ok (foldl handle db reqs)"
  by (induction reqs arbitrary: db) (simp_all add: catalog_ok_handle)

lemma catalog_ok_run: "catalog_ok (run reqs)"
  unfolding run_def by (rule catalog_ok_foldl) (simp add: catalog_ok_def init_db_def)

lemma first_by_position_well_defined:
  assumes ok: "catalog_ok db" and ne: "members db g \<noteq> []"
  shows "\<exists>r. first_by_position (members db g) = Some r
            \<and> r \<in> set (members db g)
            \<and> (\<forall>r'\<in>set (members db g). gv_position r \<le> gv_position r')
            \<and> (\<forall>s\<in>set (members db g).
                  (\<forall>r'\<in>set (members db g). gv_position s \<le> gv_position r') \<longrightarrow> s = r)"
proof -
  from ne obtain r where r: "first_by_position (members db g) = Some r"
    by (cases "first_by_position (members db g)") (auto simp add: first_by_position_None)
  from first_by_position_min [OF r] have m: "r \<in> set (members db g)"
    "\<forall>r'\<in>set (members db g). gv_position r \<le> gv_position r'" by auto
  have "s = r" if "s \<in> set (members db g)"
    "\<forall>r'\<in>set (members db g). gv_position s \<le> gv_position r'" for s
    using minimal_unique [OF catalog_ok_positions_distinct [OF ok] that m] .
  with r m show ?thesis by blast
qed


lemma set_thumbnail_frame:
  "group_videos (set_thumbnail db g t) = group_videos db"
  "members (set_thumbnail db g t) h = members db h"
  "map vg_id (video_groups (set_thumbnail db g t)) = map vg_id (video_groups db)"
  by (simp_all add: set_thumbnail_def members_def comp_def)

lemma set_thumbnail_value:
  assumes a: "grp \<in> set (video_groups (set_thumbnail db g t))" and b: "vg_id grp = g"
  shows "vg_thumbnail grp = t"
proof -
  from a obtain x where x: "x \<in> set (video_groups db)"
    "grp = (if vg_id x = g then x \<lparr> vg_thumbnail := t \<rparr> else x)"
    unfolding set_thumbnail_def by auto
  show ?thesis
  proof (cases "vg_id x = g")
    case True
    with x(2) show ?thesis by simp
  next
    case False
    with x(2) b show ?thesis by simp
  qed
qed

lemma delete_video_from_group_result:
  "snd (delete_video_from_group db g v) =
     set_thumbnail
       (db \<lparr> group_videos :=
               filter (\<lambda>r. \<not> (gv_group_id r = g \<and> gv_id r = v)) (group_videos db) \<rparr>) g
       (case first_by_position
               (filter (\<lambda>r. \<not> (gv_group_id r = g \<and> gv_id r = v)) (members db g)) of
          None \<Rightarrow> Some ''''
        | Some r \<Rightarrow> gv_video_thumbnail r)"
  by (simp add: delete_video_from_group_def Let_def members_def conj_commute)

text \<open>
  C4.  A successful \<open>add_video_to_group\<close> gives the new row the position 1 when the group
  has no members and otherwise the greatest position of the group plus one.  In every
  store reached from a new one through the handlers, each stored position (an integer) is
  at least 1 and no pair \<open>(group_id, video_id)\<close> occurs twice; every group with members
  has one member whose position lies strictly below the positions of all the others, and
  it is the row that \<open>ORDER BY position ASC LIMIT 1\<close> yields.  Each handler keeps these
  invariants.
\<close>

theorem add_video_position:
  "(add_video_to_group db group_id body = (Inr av, db') \<longrightarrow>
      av_position av =
        (if members db group_id = [] then 1
         else Max (gv_position ` set (members db group_id)) + 1)
      \<and> (\<exists>row. group_videos db' = group_videos db @ [row]
                \<and> gv_group_id row = group_id \<and> gv_position row = av_position av))
   \<and> (\<forall>r\<in>set (group_videos (run reqs)). 1 \<le> gv_position r)
   \<and> distinct (map (\<lambda>r. (gv_group_id r, gv_video_id r)) (group_videos (run reqs)))
   \<and> (members (run reqs) g \<noteq> [] \<longrightarrow>
        (\<exists>r. first_by_position (members (run reqs) g) = Some r
            \<and> r \<in> set (members (run reqs) g)
            \<and> (\<forall>r'\<in>set (members (run reqs) g). r' \<noteq> r \<longrightarrow> gv_position r < gv_position r')))
   \<and> (catalog_ok db \<longrightarrow> catalog_ok (handle db req))"
proof (intro conjI impI)
  assume add: "add_video_to_group db group_id body = (Inr av, db')"
  from add_video_to_group_succeeds [OF add] obtain row where row:
    "group_videos db' = group_videos db @ [row]" "gv_group_id row = group_id"
    "gv_position row = av_position av"
    "av_position av = (case max_position db group_id of None \<Rightarrow> 1 | Some m \<Rightarrow> m + 1)"
    by blast
  from row(4) show "av_position av =
        (if members db group_id = [] then 1
         else Max (gv_position ` set (members db group_id)) + 1)"
    by (simp add: max_position_eq)
  from row(1,2,3) show "\<exists>row. group_videos db' = group_videos db @ [row]
                \<and> gv_group_id row = group_id \<and> gv_position row = av_position av"
    by blast
next
  from catalog_ok_run [of reqs] show "\<forall>r\<in>set (group_videos (run reqs)). 1 \<le> gv_position r"
    by (simp add: catalog_ok_def)
  from catalog_ok_run [of reqs]
  show "distinct (map (\<lambda>r. (gv_group_id r, gv_video_id r)) (group_videos (run reqs)))"
    by (simp add: catalog_ok_def)
next
  let ?ms = "members (run reqs) g"
  assume ne: "?ms \<noteq> []"
  from first_by_position_well_defined [OF catalog_ok_run ne] obtain r where r:
    "first_by_position ?ms = Some r" "r \<in> set ?ms"
    "\<forall>r'\<in>set ?ms. gv_position r \<le> gv_position r'"
    by blast
  have d: "distinct (map gv_position ?ms)"
    by (rule catalog_ok_positions_distinct [OF catalog_ok_run])
  have "gv_position r < gv_position r'" if "r' \<in> set ?ms" "r' \<noteq> r" for r'
  proof -
    from d that r(2) have "gv_position r' \<noteq> gv_position r"
      by (meson distinct_map inj_onD)
    with r(3) that(1) show ?thesis by fastforce
  qed
  with r(1,2) show "\<exists>r. first_by_position ?ms = Some r \<and> r \<in> set ?ms
            \<and> (\<forall>r'\<in>set ?ms. r' \<noteq> r \<longrightarrow> gv_position r < gv_position r')"
    by blast
next
  assume "catalog_ok db"
  then show "catalog_ok (handle db req)" by (rule catalog_ok_handle)
qed

theorem add_video_position_witness:
  "add_video_to_group init_db 1 (Some [(''video_id'', PStr ''abc123''), (''video_title'', PStr ''A'')])
     = (Inl (Err 404 ''Group not found''), init_db)
   \<and> av_position (projr (fst (add_video_to_group (run (butlast kids_requests)) 1
        (Some [(''video_id'', PStr ''def456''), (''video_title'', PStr ''B'')])))) = 2
   \<and> run kids_requests = kids_catalog
   \<and> first_by_position (members (run kids_requests) 1) = Some abc_row
   \<and> catalog_ok (handle kids_catalog (DeleteVideoFromGroup 1 1))"
proof -
  let ?body = "Some [(''video_id'', PStr ''def456''), (''video_title'', PStr ''B'')]"
  let ?db = "run (butlast kids_requests)"
  have nf: "add_video_to_group init_db 1
              (Some [(''video_id'', PStr ''abc123''), (''video_title'', PStr ''A'')])
            = (Inl (Err 404 ''Group not found''), init_db)"
    by code_simp
  have run: "run kids_requests = kids_catalog" by code_simp
  have ms: "members ?db 1 = [abc_row]" by code_simp
  have add: "add_video_to_group ?db 1 ?body
               = (Inr (projr (fst (add_video_to_group ?db 1 ?body))), kids_catalog)"
    by code_simp
  have pos: "av_position (projr (fst (add_video_to_group ?db 1 ?body))) = 2"
    using add_video_position [where db = ?db and group_id = 1 and body = ?body
        and av = "projr (fst (add_video_to_group ?db 1 ?body))" and db' = kids_catalog,
        THEN conjunct1] add ms
    by (simp add: abc_row_def)
  have mem: "members (run kids_requests) 1 = [abc_row, def_row]"
    by (simp add: run) code_simp
  have first: "first_by_position (members (run kids_requests) 1) = Some abc_row"
    using add_video_position [where reqs = kids_requests and g = 1,
        THEN conjunct2, THEN conjunct2, THEN conjunct2, THEN conjunct1] mem
    by (auto simp add: abc_row_def def_row_def)
  have okk: "catalog_ok kids_catalog"
    using catalog_ok_run [of kids_requests] by (simp add: run)
  have keep: "catalog_ok (handle kids_catalog (DeleteVideoFromGroup 1 1))"
    using add_video_position [where db = kids_catalog and req = "DeleteVideoFromGroup 1 1",
        THEN conjunct2, THEN conjunct2, THEN conjunct2, THEN conjunct2] okk
    by blast
  from nf pos run first keep show ?thesis by blast
qed

text \<open>
  C5.  A successful \<open>delete_video_from_group\<close> removes the row and writes the thumbnail of
  the group anew: it is the thumbnail of the remaining member with the lowest position
  (the row that \<open>ORDER BY position ASC LIMIT 1\<close> yields), and the empty text when no
  member remains.  This holds whichever row was removed, so in particular when the row
  removed was the one that supplied the thumbnail.  No group row is added or removed.
\<close>

theorem delete_video_recomputes_thumbnail:
  "delete_video_from_group db group_id video_id = (Inr u, db') \<longrightarrow>
     group_videos db'
       = filter (\<lambda>r. \<not> (gv_group_id r = group_id \<and> gv_id r = video_id)) (group_videos db)
     \<and> map vg_id (video_groups db') = map vg_id (video_groups db)
     \<and> (\<forall>grp\<in>set (video_groups db'). vg_id grp = group_id \<longrightarrow>
          (members db' group_id = [] \<longrightarrow> vg_thumbnail grp = Some '''')
        \<and> (members db' group_id \<noteq> [] \<longrightarrow>
              (\<exists>r\<in>set (members db' group_id).
                  (\<forall>r'\<in>set (members db' group_id). gv_position r \<le> gv_position r')
                  \<and> first_by_position (members db' group_id) = Some r
                  \<and> vg_thumbnail grp = gv_video_thumbnail r)))"
proof (intro impI conjI ballI)
  let ?P = "\<lambda>r. \<not> (gv_group_id r = group_id \<and> gv_id r = video_id)"
  let ?t = "case first_by_position (filter ?P (members db group_id)) of
              None \<Rightarrow> Some '''' | Some r \<Rightarrow> gv_video_thumbnail r"
  assume del: "delete_video_from_group db group_id video_id = (Inr u, db')"
  then have db': "db' = set_thumbnail (db \<lparr> group_videos := filter ?P (group_videos db) \<rparr>)
                          group_id ?t"
    using delete_video_from_group_result [of db group_id video_id] by simp
  show gv: "group_videos db' = filter ?P (group_videos db)"
    by (simp add: db' set_thumbnail_frame)
  show "map vg_id (video_groups db') = map vg_id (video_groups db)"
    by (simp add: db' set_thumbnail_frame)
  have ms: "members db' group_id = filter ?P (members db group_id)"
    using gv by (rule members_filter)
  fix grp assume grp: "grp \<in> set (video_groups db')" "vg_id grp = group_id"
  then have thumb: "vg_thumbnail grp = ?t"
    unfolding db' by (rule set_thumbnail_value)
  show "vg_thumbnail grp = Some ''''" if "members db' group_id = []"
    using that thumb ms by simp
  show "\<exists>r\<in>set (members db' group_id).
                  (\<forall>r'\<in>set (members db' group_id). gv_position r \<le> gv_position r')
                  \<and> first_by_position (members db' group_id) = Some r
                  \<and> vg_thumbnail grp = gv_video_thumbnail r" if ne: "members db' group_id \<noteq> []"
  proof -
    from ne obtain r where r: "first_by_position (members db' group_id) = Some r"
      by (cases "first_by_position (members db' group_id)") (auto simp add: first_by_position_None)
    from first_by_position_min [OF r] thumb r ms show ?thesis by auto
  qed
qed

theorem delete_video_recomputes_thumbnail_witness:
  "delete_video_from_group kids_catalog 1 1
     = (Inr (), kids_catalog \<lparr> video_groups := [kids_group (gv_video_thumbnail def_row)],
                              group_videos := [def_row] \<rparr>)
   \<and> delete_video_from_group
        (kids_catalog \<lparr> video_groups := [kids_group (gv_video_thumbnail def_row)],
                        group_videos := [def_row] \<rparr>) 1 2
     = (Inr (), kids_catalog \<lparr> video_groups := [kids_group (Some '''')], group_videos := [] \<rparr>)"
proof -
  let ?db1 = "kids_catalog \<lparr> video_groups := [kids_group (gv_video_thumbnail def_row)],
                            group_videos := [def_row] \<rparr>"
  let ?db2 = "kids_catalog \<lparr> video_groups := [kids_group (Some '''')], group_videos := [] \<rparr>"
  have a: "delete_video_from_group kids_catalog 1 1 = (Inr (), ?db1)" by code_simp
  have b: "delete_video_from_group ?db1 1 2 = (Inr (), ?db2)" by code_simp
  have "members ?db1 1 = [def_row]" by code_simp
  with delete_video_recomputes_thumbnail
    [where db = kids_catalog and group_id = 1 and video_id = 1 and u = "()" and db' = ?db1] a
  have "\<forall>grp\<in>set (video_groups ?db1). vg_id grp = 1 \<longrightarrow>
          vg_thumbnail grp = gv_video_thumbnail def_row"
    by auto
  with a b show ?thesis by blast
qed

text \<open>
  C10.  An add to a group that already has members, all of whose positions are at least
  1 as in the data model, leaves every group row as it is, the thumbnail included,
  whatever the thumbnail was.  The thumbnail is written exactly when the new member gets
  position 1, which is what it gets in a group without members.
\<close>

theorem add_video_keeps_thumbnail:
  "((\<forall>r\<in>set (members db group_id). 1 \<le> gv_position r) \<and> members db group_id \<noteq> [] \<longrightarrow>
      video_groups (snd (add_video_to_group db group_id body)) = video_groups db)
   \<and> (add_video_to_group db group_id body = (Inr av, db') \<longrightarrow>
        video_groups db' =
          (if av_position av = 1
           then video_groups (set_thumbnail db group_id (sql_text (av_video_thumbnail av)))
           else video_groups db))
   \<and> (add_video_to_group db group_id body = (Inr av, db') \<and> members db group_id = [] \<longrightarrow>
        av_position av = 1)"
proof (intro conjI impI)
  assume h: "(\<forall>r\<in>set (members db group_id). 1 \<le> gv_position r) \<and> members db group_id \<noteq> []"
  obtain res dbx where res: "add_video_to_group db group_id body = (res, dbx)"
    by (cases "add_video_to_group db group_id body")
  show "video_groups (snd (add_video_to_group db group_id body)) = video_groups db"
  proof (cases res)
    case (Inl e)
    with res have "dbx = db" by (simp add: add_video_to_group_fails)
    with res show ?thesis by simp
  next
    case (Inr a)
    with res have add: "add_video_to_group db group_id body = (Inr a, dbx)" by simp
    from add_video_to_group_succeeds [OF add] have
      p: "av_position a = (case max_position db group_id of None \<Rightarrow> 1 | Some m \<Rightarrow> m + 1)"
      and g: "video_groups dbx =
               (if av_position a = 1
                then video_groups (set_thumbnail db group_id (sql_text (av_video_thumbnail a)))
                else video_groups db)"
      by blast+
    from next_position_fresh(3) h p have "av_position a \<noteq> 1" by fastforce
    with g res show ?thesis by simp
  qed
next
  assume add: "add_video_to_group db group_id body = (Inr av, db')"
  from add_video_to_group_succeeds [OF add]
  show "video_groups db' =
          (if av_position av = 1
           then video_groups (set_thumbnail db group_id (sql_text (av_video_thumbnail av)))
           else video_groups db)"
    by blast
next
  assume h: "add_video_to_group db group_id body = (Inr av, db') \<and> members db group_id = []"
  then have add: "add_video_to_group db group_id body = (Inr av, db')" by simp
  from add_video_to_group_succeeds [OF add] h show "av_position av = 1"
    by (auto simp add: max_position_eq)
qed

theorem add_video_keeps_thumbnail_witness:
  "map vg_thumbnail (video_groups stale_catalog) = [Some ''old.jpg'']
   \<and> fst (add_video_to_group stale_catalog 1
            (Some [(''video_id'', PStr ''xyz789''), (''video_title'', PStr ''C'')]))
     = Inr \<lparr> av_id = 3, av_video_id = PStr ''xyz789'', av_video_title = PStr ''C'',
             av_video_thumbnail = PStr ''https://i.ytimg.com/vi/xyz789/hqdefault.jpg'',
             av_position = 3 \<rparr>
   \<and> video_groups (snd (add_video_to_group stale_catalog 1
        (Some [(''video_id'', PStr ''xyz789''), (''video_title'', PStr ''C'')])))
     = video_groups stale_catalog"
proof -
  have a: "map vg_thumbnail (video_groups stale_catalog) = [Some ''old.jpg'']"
    by (simp add: stale_catalog_def kids_group_def)
  have b: "fst (add_video_to_group stale_catalog 1
            (Some [(''video_id'', PStr ''xyz789''), (''video_title'', PStr ''C'')]))
     = Inr \<lparr> av_id = 3, av_video_id = PStr ''xyz789'', av_video_title = PStr ''C'',
             av_video_thumbnail = PStr ''https://i.ytimg.com/vi/xyz789/hqdefault.jpg'',
             av_position = 3 \<rparr>"
    by code_simp
  have ms: "members stale_catalog 1 = [def_row]" by code_simp
  have c: "video_groups (snd (add_video_to_group stale_catalog 1
        (Some [(''video_id'', PStr ''xyz789''), (''video_title'', PStr ''C'')])))
     = video_groups stale_catalog"
    using add_video_keeps_thumbnail [where db = stale_catalog and group_id = 1
        and body = "Some [(''video_id'', PStr ''xyz789''), (''video_title'', PStr ''C'')]",
        THEN conjunct1] ms
    by (simp add: def_row_def)
  from a b c show ?thesis by blast
qed

text \<open>
  Deleting a group: an id without a group row is answered 404 and nothing changes; on a
  connection with foreign keys switched on the delete takes the member rows with it.
\<close>

lemma delete_group_not_found:
  "\<not> (\<exists>grp\<in>set (video_groups db). vg_id grp = g) \<Longrightarrow>
   delete_group db g = (Inl (Err 404 ''Group not found''), db)"
proof -
  assume "\<not> (\<exists>grp\<in>set (video_groups db). vg_id grp = g)"
  then have "filter (\<lambda>grp. vg_id grp = g) (video_groups db) = []"
    "filter (\<lambda>grp. vg_id grp \<noteq> g) (video_groups db) = video_groups db"
    by (auto simp add: filter_empty_conv filter_id_conv)
  then show ?thesis
    by (simp add: delete_group_def sql_delete_group_def Let_def)
qed

lemma sql_delete_group_cascades:
  "0 < fst (sql_delete_group True db g) \<Longrightarrow> members (snd (sql_delete_group True db g)) g = []"
  by (auto simp add: sql_delete_group_def Let_def members_def filter_empty_conv)

text \<open>
  C7 on the code.  The claim: \<open>delete_group\<close> removes the group row together with all
  member rows of the group, and fails with 404 for an unknown id.  The handlers never
  switch foreign keys on, so the cascade does not happen: after the group \<open>Kids\<close> got two
  videos, \<open>delete_group\<close> answers with success and removes the group row, and both
  member rows are still in \<open>group_videos\<close>.
\<close>

theorem delete_group_leaves_members:
  "run kids_requests = kids_catalog
   \<and> delete_group kids_catalog 1 = (Inr (), kids_catalog \<lparr> video_groups := [] \<rparr>)
   \<and> members (snd (delete_group kids_catalog 1)) 1 = [abc_row, def_row]"
  by code_simp


text \<open>
  The handler of \<open>backend/server.py\<close> for the same request looks for the row first and
  leaves the store alone when it is not there.
\<close>

lemma backend_delete_video_not_found:
  "video_id \<notin> group_video_ids db group_id \<Longrightarrow>
   backend_delete_video_from_group db group_id video_id
     = (Inl (Err 404 ''Video not found in group''), db)"
  by (simp add: backend_delete_video_from_group_def)

end
